theory Spec2Isabelle
  imports Complex_Main
begin

section \<open>Evaluation metrics of FARM (farm/evaluation/metrics.py)\<close>

text \<open>
  The module is embedded function by function. Python exceptions are values of
  \<open>py_error\<close> and every function that can raise returns \<open>py_error + 'a\<close>
  (\<open>Inl\<close> the exception). Python integers are \<open>int\<close> (\<open>nat\<close> for counters and
  loop indices, which only count up from 0). Python floats are \<open>real\<close> numbers.
  Where the code truncates a float product to an integer, in the calibration
  bins, the product is rounded as IEEE 754 binary64 arithmetic rounds it, since
  there the rounding decides the result; the sums, means and ratios that the
  metrics return are exact. The \<open>nan\<close> that \<open>numpy.mean\<close> returns for an empty list is
  kept apart in \<open>np_float\<close>.
\<close>

subsection \<open>Exceptions and sequencing\<close>

datatype py_error =
    AssertionError
  | KeyError string
  | AttributeError string
  | IndexError
  | ValueError
  | TypeError
  | ZeroDivisionError
  | OverflowError

definition ebind :: "py_error + 'a \<Rightarrow> ('a \<Rightarrow> py_error + 'b) \<Rightarrow> py_error + 'b" where
  "ebind m f = (case m of Inl e \<Rightarrow> Inl e | Inr x \<Rightarrow> f x)"

text \<open>\<open>xs[i]\<close> for an index that is never negative.\<close>

definition getitem :: "'a list \<Rightarrow> nat \<Rightarrow> py_error + 'a" where
  "getitem xs i = (if i < length xs then Inr (xs ! i) else Inl IndexError)"

text \<open>
  \<open>xs[i]\<close> for an arbitrary Python integer: a negative index counts from the end.
  The result is the position that is read or written.
\<close>

definition list_index :: "nat \<Rightarrow> int \<Rightarrow> py_error + nat" where
  "list_index n i =
     (if 0 \<le> i \<and> i < int n then Inr (nat i)
      else if - int n \<le> i \<and> i < 0 then Inr (nat (int n + i))
      else Inl IndexError)"

text \<open>A \<open>for\<close> loop over \<open>xs\<close> that threads a state and stops at the first exception.\<close>

fun for_each :: "'a list \<Rightarrow> ('a \<Rightarrow> 's \<Rightarrow> py_error + 's) \<Rightarrow> 's \<Rightarrow> py_error + 's" where
  "for_each [] body s = Inr s"
| "for_each (x # xs) body s = ebind (body x s) (for_each xs body)"

text \<open>A list comprehension whose element expression can raise.\<close>

fun comprehension :: "('a \<Rightarrow> py_error + 'b) \<Rightarrow> 'a list \<Rightarrow> py_error + 'b list" where
  "comprehension f [] = Inr []"
| "comprehension f (x # xs) =
     ebind (f x) (\<lambda>y. ebind (comprehension f xs) (\<lambda>ys. Inr (y # ys)))"

text \<open>The builtin \<open>max\<close> on a list: \<open>ValueError\<close> on the empty list.\<close>

definition py_max :: "real list \<Rightarrow> py_error + real" where
  "py_max xs = (case xs of [] \<Rightarrow> Inl ValueError | y # ys \<Rightarrow> Inr (fold max ys y))"

text \<open>
  \<open>numpy.mean\<close> of a list of numbers: the mean, and \<open>nan\<close> (with a warning, not an
  exception) for the empty list.
\<close>

datatype np_float = Float real | NaN

definition np_mean :: "real list \<Rightarrow> np_float" where
  "np_mean xs = (if xs = [] then NaN else Float (sum_list xs / real (length xs)))"

text \<open>\<open>int(x)\<close> on a float truncates towards zero.\<close>

definition py_int :: "real \<Rightarrow> int" where
  "py_int x = (if 0 \<le> x then \<lfloor>x\<rfloor> else \<lceil>x\<rceil>)"

subsection \<open>Binary64 floats\<close>

text \<open>
  A finite double is an integer of at most 53 bits times a power of two.
  \<open>exponent x\<close> is the binary exponent of \<open>x\<close>, at least \<open>-1022\<close> (below that the doubles
  are subnormal and equally spaced), \<open>ulp x\<close> the spacing of the doubles around \<open>x\<close>,
  and \<open>round_double x\<close> the double nearest to \<open>x\<close>, with ties going to the even
  significand. \<open>float_mul\<close> is the product of two doubles, the exact product
  rounded once. A product beyond \<open>max_double\<close> is infinite, and \<open>int\<close> of an infinite
  float raises \<open>OverflowError\<close>.
\<close>

definition pow2 :: "int \<Rightarrow> real" where
  "pow2 e = (if 0 \<le> e then 2 ^ nat e else 1 / 2 ^ nat (- e))"

function ilog2_up :: "real \<Rightarrow> int" where
  "ilog2_up x = (if x < 2 then 0 else ilog2_up (x / 2) + 1)"
  by pat_completeness auto
termination
proof (relation "measure (\<lambda>x. nat \<lceil>x\<rceil>)")
  show "wf (measure (\<lambda>x::real. nat \<lceil>x\<rceil>))" by simp
next
  fix x :: real
  assume "\<not> x < 2"
  then have c: "2 \<le> \<lceil>x\<rceil>" by (simp add: le_ceiling_iff)
  have "x \<le> real_of_int \<lceil>x\<rceil>" by (rule le_of_int_ceiling)
  moreover from c have "2 \<le> real_of_int \<lceil>x\<rceil>" by linarith
  ultimately have "x / 2 \<le> real_of_int \<lceil>x\<rceil> - 1" by linarith
  then have "x / 2 \<le> real_of_int (\<lceil>x\<rceil> - 1)" by simp
  then have "\<lceil>x / 2\<rceil> \<le> \<lceil>x\<rceil> - 1" by (simp only: ceiling_le_iff)
  with c show "(x / 2, x) \<in> measure (\<lambda>x. nat \<lceil>x\<rceil>)" by simp
qed

function ilog2_down :: "real \<Rightarrow> int" where
  "ilog2_down x = (if x \<le> 0 \<or> 1 \<le> x then 0 else ilog2_down (x * 2) - 1)"
  by pat_completeness auto
termination
proof (relation "measure (\<lambda>x. nat \<lceil>1 / x\<rceil>)")
  show "wf (measure (\<lambda>x::real. nat \<lceil>1 / x\<rceil>))" by simp
next
  fix x :: real
  assume "\<not> (x \<le> 0 \<or> 1 \<le> x)"
  then have x: "0 < x" "x < 1" by simp_all
  then have "1 < 1 / x" by simp
  then have "real_of_int 2 - 1 < 1 / x" by simp
  then have c: "2 \<le> \<lceil>1 / x\<rceil>" by (simp only: le_ceiling_iff)
  have "1 / x \<le> real_of_int \<lceil>1 / x\<rceil>" by (rule le_of_int_ceiling)
  moreover from c have "2 \<le> real_of_int \<lceil>1 / x\<rceil>" by linarith
  moreover have "1 / (x * 2) = (1 / x) / 2" by simp
  ultimately have "1 / (x * 2) \<le> real_of_int \<lceil>1 / x\<rceil> - 1" by linarith
  then have "1 / (x * 2) \<le> real_of_int (\<lceil>1 / x\<rceil> - 1)" by simp
  then have "\<lceil>1 / (x * 2)\<rceil> \<le> \<lceil>1 / x\<rceil> - 1" by (simp only: ceiling_le_iff)
  with c x show "(x * 2, x) \<in> measure (\<lambda>x. nat \<lceil>1 / x\<rceil>)" by simp
qed

declare ilog2_up.simps [simp del] ilog2_down.simps [simp del]

definition exponent :: "real \<Rightarrow> int" where
  "exponent x = max (if 1 \<le> \<bar>x\<bar> then ilog2_up \<bar>x\<bar> else ilog2_down \<bar>x\<bar>) (- 1022)"

definition ulp :: "real \<Rightarrow> real" where
  "ulp x = pow2 (exponent x - 52)"

definition round_half_even :: "real \<Rightarrow> int" where
  "round_half_even y =
     (let f = \<lfloor>y\<rfloor>; d = y - real_of_int f
      in if d < 1 / 2 then f
         else if 1 / 2 < d then f + 1
         else if even f then f else f + 1)"

definition round_double :: "real \<Rightarrow> real" where
  "round_double x = real_of_int (round_half_even (x / ulp x)) * ulp x"

definition max_double :: real where
  "max_double = (2 ^ 53 - 1) * 2 ^ 971"

definition is_double :: "real \<Rightarrow> bool" where
  "is_double x = (round_double x = x \<and> \<bar>x\<bar> \<le> max_double)"

definition float_mul :: "real \<Rightarrow> real \<Rightarrow> real" where
  "float_mul x y = round_double (x * y)"

text \<open>\<open>int(x)\<close> on a float product \<open>x\<close>, before the test for infinity.\<close>

definition float_to_int :: "real \<Rightarrow> py_error + int" where
  "float_to_int x = (if max_double < \<bar>x\<bar> then Inl OverflowError else Inr (py_int x))"

subsection \<open>Span question answering: data\<close>

text \<open>
  A candidate answer carries its character offsets and the model's confidence.
  The prediction for one document is a list whose element 0 is the ranked list of
  candidates (the code reads \<open>preds[doc_idx][0][0]\<close>); the labels of one document are
  its gold \<open>(start, end)\<close> pairs.
\<close>

record qa_candidate =
  offset_answer_start :: int
  offset_answer_end :: int
  score :: real

type_synonym qa_pred = "qa_candidate list list"
type_synonym qa_label = "(int \<times> int) list"

subsection \<open>Exact match\<close>

definition squad_EM_body :: "qa_pred list \<Rightarrow> qa_label list \<Rightarrow> nat \<Rightarrow> nat \<Rightarrow> py_error + nat" where
  "squad_EM_body preds labels doc_idx n_correct =
     ebind (getitem preds doc_idx) (\<lambda>p.
     ebind (getitem p 0) (\<lambda>cs.
     ebind (getitem cs 0) (\<lambda>qa_candidate.
       let pred_start = offset_answer_start qa_candidate;
           pred_end = offset_answer_end qa_candidate
       in ebind (getitem labels doc_idx) (\<lambda>curr_labels.
            if (pred_start, pred_end) \<in> set curr_labels
            then Inr (n_correct + 1) else Inr n_correct))))"

definition squad_EM :: "qa_pred list \<Rightarrow> qa_label list \<Rightarrow> py_error + real" where
  "squad_EM preds labels =
     (let n_docs = length preds
      in ebind (for_each [0..<n_docs] (squad_EM_body preds labels) 0) (\<lambda>n_correct.
           Inr (if n_docs \<noteq> 0 then real n_correct / real n_docs else 0)))"

definition squad_EM_start_body ::
    "qa_pred list \<Rightarrow> qa_label list \<Rightarrow> nat \<Rightarrow> nat \<Rightarrow> py_error + nat" where
  "squad_EM_start_body preds labels doc_idx n_correct =
     ebind (getitem preds doc_idx) (\<lambda>p.
     ebind (getitem p 0) (\<lambda>cs.
     ebind (getitem cs 0) (\<lambda>qa_candidate.
     ebind (getitem labels doc_idx) (\<lambda>curr_labels.
       let pred = offset_answer_start qa_candidate;
           curr_label = map (\<lambda>label. snd label) curr_labels
       in if pred \<in> set curr_label then Inr (n_correct + 1) else Inr n_correct))))"

definition squad_EM_start :: "qa_pred list \<Rightarrow> qa_label list \<Rightarrow> py_error + real" where
  "squad_EM_start preds labels =
     (let n_docs = length preds
      in ebind (for_each [0..<n_docs] (squad_EM_start_body preds labels) 0) (\<lambda>n_correct.
           Inr (if n_docs \<noteq> 0 then real n_correct / real n_docs else 0)))"

subsection \<open>Overlap F1\<close>

definition squad_f1_single :: "qa_candidate list \<Rightarrow> int \<times> int \<Rightarrow> nat \<Rightarrow> py_error + real" where
  "squad_f1_single pred label pred_idx =
     (case label of (label_start, label_end) \<Rightarrow>
        ebind (getitem pred pred_idx) (\<lambda>span.
          let pred_start = offset_answer_start span;
              pred_end = offset_answer_end span
          in if pred_start + pred_end = 0 \<or> label_start + label_end = 0
             then (if pred_start = label_start then Inr 1 else Inr 0)
             else
               let pred_span = [pred_start..pred_end];
                   label_span = [label_start..label_end];
                   n_overlap = length (filter (\<lambda>x. x \<in> set label_span) pred_span)
               in if n_overlap = 0 then Inr 0
                  else
                    let precision = real n_overlap / real (length pred_span);
                        recall = real n_overlap / real (length label_span);
                        f1 = (2 * precision * recall) / (precision + recall)
                    in Inr f1))"

definition squad_f1_body ::
    "qa_pred list \<Rightarrow> qa_label list \<Rightarrow> nat \<Rightarrow> real list \<Rightarrow> py_error + real list" where
  "squad_f1_body preds labels i f1_scores =
     ebind (getitem preds i) (\<lambda>p.
     ebind (getitem p 0) (\<lambda>best_pred.
     ebind (getitem labels i) (\<lambda>curr_labels.
     ebind (comprehension (\<lambda>label. squad_f1_single best_pred label 0) curr_labels) (\<lambda>scores.
     ebind (py_max scores) (\<lambda>best_f1.
       Inr (f1_scores @ [best_f1]))))))"

definition squad_f1 :: "qa_pred list \<Rightarrow> qa_label list \<Rightarrow> py_error + np_float" where
  "squad_f1 preds labels =
     (let n_docs = length preds
      in ebind (for_each [0..<n_docs] (squad_f1_body preds labels) []) (\<lambda>f1_scores.
           Inr (np_mean f1_scores)))"

subsection \<open>Confidence\<close>

definition confidence_body :: "qa_pred \<Rightarrow> real \<Rightarrow> py_error + real" where
  "confidence_body pred conf =
     ebind (getitem pred 0) (\<lambda>cs.
     ebind (getitem cs 0) (\<lambda>c. Inr (conf + score c)))"

definition confidence :: "qa_pred list \<Rightarrow> py_error + real" where
  "confidence preds =
     ebind (for_each preds confidence_body 0) (\<lambda>conf.
       Inr (if length preds \<noteq> 0 then conf / real (length preds) else 0))"

subsection \<open>Calibration bins\<close>

type_synonym bins = "qa_pred list list \<times> qa_label list list \<times> nat list"

text \<open>
  \<open>bin_index n current_score\<close> is the position that \<open>xs[int(current_score*10)]\<close>
  reads or writes in a list \<open>xs\<close> of length \<open>n\<close>. The literal \<open>0.9999\<close> is the double
  nearest to it.
\<close>

definition bin_index :: "nat \<Rightarrow> real \<Rightarrow> py_error + nat" where
  "bin_index n current_score =
     ebind (float_to_int (float_mul current_score 10)) (list_index n)"

definition metrics_per_bin_body :: "qa_pred \<times> qa_label \<Rightarrow> bins \<Rightarrow> py_error + bins" where
  "metrics_per_bin_body pl st =
     (case pl of (pred, label) \<Rightarrow>
      case st of (pred_bins, label_bins, count_per_bin) \<Rightarrow>
        ebind (getitem pred 0) (\<lambda>cs.
        ebind (getitem cs 0) (\<lambda>c.
          let current_score = score c;
              current_score =
                (if current_score = 1 then round_double (9999 / 10000) else current_score)
          in ebind (bin_index (length pred_bins) current_score) (\<lambda>k.
             ebind (bin_index (length label_bins) current_score) (\<lambda>k'.
             ebind (bin_index (length count_per_bin) current_score) (\<lambda>k''.
               Inr (pred_bins[k := pred_bins ! k @ [pred]],
                    label_bins[k' := label_bins ! k' @ [label]],
                    count_per_bin[k'' := count_per_bin ! k'' + 1])))))))"

definition per_bin_body ::
    "qa_pred list list \<Rightarrow> qa_label list list \<Rightarrow> nat \<Rightarrow> real list \<times> real list
       \<Rightarrow> py_error + real list \<times> real list" where
  "per_bin_body pred_bins label_bins i st =
     (case st of (em_per_bin, confidence_per_bin) \<Rightarrow>
        ebind (squad_EM_start (pred_bins ! i) (label_bins ! i)) (\<lambda>em.
        ebind (confidence (pred_bins ! i)) (\<lambda>conf.
          Inr (em_per_bin[i := em], confidence_per_bin[i := conf]))))"

definition metrics_per_bin ::
    "qa_pred list \<Rightarrow> qa_label list \<Rightarrow> py_error + real list \<times> real list \<times> nat list" where
  "metrics_per_bin preds labels =
     (let pred_bins = replicate 10 [];
          label_bins = replicate 10 [];
          count_per_bin = replicate 10 0
      in ebind (for_each (zip preds labels) metrics_per_bin_body
                  (pred_bins, label_bins, count_per_bin)) (\<lambda>st.
         case st of (pred_bins, label_bins, count_per_bin) \<Rightarrow>
           let em_per_bin = replicate 10 0;
               confidence_per_bin = replicate 10 0
           in ebind (for_each [1..<10] (per_bin_body pred_bins label_bins)
                       (em_per_bin, confidence_per_bin)) (\<lambda>st'.
              case st' of (em_per_bin, confidence_per_bin) \<Rightarrow>
                Inr (em_per_bin, confidence_per_bin, count_per_bin))))"

subsection \<open>Top-N accuracy\<close>

text \<open>
  The inner loop over \<open>enumerate(current_preds)\<close>, with its \<open>break\<close>: the remaining
  indices and the current value of \<open>f1_score\<close> are the loop state.
\<close>

fun top_n_scan ::
    "qa_candidate list \<Rightarrow> qa_label list \<Rightarrow> nat \<Rightarrow> nat list \<Rightarrow> real \<Rightarrow> py_error + real" where
  "top_n_scan current_preds labels i [] f1_score = Inr f1_score"
| "top_n_scan current_preds labels i (idx # idxs) f1_score =
     ebind (getitem labels i) (\<lambda>curr_labels.
     ebind (comprehension (\<lambda>label. squad_f1_single current_preds label idx) curr_labels)
       (\<lambda>scores.
     ebind (py_max scores) (\<lambda>f1_score'.
       if f1_score' \<noteq> 0 then Inr f1_score'
       else top_n_scan current_preds labels i idxs f1_score')))"

definition top_n_accuracy_body ::
    "qa_pred list \<Rightarrow> qa_label list \<Rightarrow> nat \<Rightarrow> real list \<Rightarrow> py_error + real list" where
  "top_n_accuracy_body preds labels i answer_in_top_n =
     (let f1_score = 0
      in ebind (getitem preds i) (\<lambda>p.
         ebind (getitem p 0) (\<lambda>current_preds.
         ebind (top_n_scan current_preds labels i [0..<length current_preds] f1_score)
           (\<lambda>f1_score.
             if f1_score \<noteq> 0 then Inr (answer_in_top_n @ [1])
             else Inr (answer_in_top_n @ [0])))))"

definition top_n_accuracy :: "qa_pred list \<Rightarrow> qa_label list \<Rightarrow> py_error + np_float" where
  "top_n_accuracy preds labels =
     (let n_questions = length preds
      in ebind (for_each [0..<n_questions] (top_n_accuracy_body preds labels) [])
           (\<lambda>answer_in_top_n. Inr (np_mean answer_in_top_n)))"

subsection \<open>The aggregate \<open>squad\<close> metric\<close>

text \<open>
  A metric returns a dictionary from names to values; the dictionary is kept as the
  list of its items in insertion order.
\<close>

datatype metric_value =
    Num real
  | NpNum np_float
  | NumList "real list"
  | CountList "nat list"

type_synonym metrics = "(string \<times> metric_value) list"

definition squad :: "qa_pred list \<Rightarrow> qa_label list \<Rightarrow> py_error + metrics" where
  "squad preds labels =
     ebind (squad_EM preds labels) (\<lambda>em.
     ebind (squad_f1 preds labels) (\<lambda>f1.
     ebind (top_n_accuracy preds labels) (\<lambda>top_acc.
     ebind (confidence preds) (\<lambda>conf.
     ebind (metrics_per_bin preds labels) (\<lambda>bins.
       case bins of (em_per_bin, conf_per_bin, count_per_bin) \<Rightarrow>
         Inr [(''EM'', Num em), (''f1'', NpNum f1), (''top_n_accuracy'', NpNum top_acc),
              (''confidence'', Num conf), (''em_per_bin'', NumList em_per_bin),
              (''confidence_per_bin'', NumList conf_per_bin),
              (''count_per_bin'', CountList count_per_bin)])))))"

subsection \<open>Dynamically typed batches\<close>

text \<open>
  \<open>compute_metrics\<close> and \<open>compute_report_metrics\<close> receive \<open>preds\<close> and \<open>labels\<close> of
  whatever shape the requested metric consumes. The shapes are a tagged union:
  span predictions, span labels, lists of integer arrays (rankings and relevance
  vectors), flat integer lists, and lists of items of a type \<open>'a\<close> that only the
  external statistics routines look into. The empty list has every shape. A
  non-empty list of the wrong shape raises at the first operation the code
  applies to its elements: \<open>TypeError\<close> where it indexes them or computes with
  them, \<open>AttributeError\<close> where it calls \<open>astype\<close> on them; \<open>as_arrays\<close> is told which.
\<close>

datatype 'a py_seq =
    QAPreds "qa_pred list"
  | QALabels "qa_label list"
  | Arrays "int list list"
  | Ints "int list"
  | Items "'a list"

fun len :: "'a py_seq \<Rightarrow> nat" where
  "len (QAPreds xs) = length xs"
| "len (QALabels xs) = length xs"
| "len (Arrays xs) = length xs"
| "len (Ints xs) = length xs"
| "len (Items xs) = length xs"

definition as_qa_preds :: "'a py_seq \<Rightarrow> py_error + qa_pred list" where
  "as_qa_preds s =
     (case s of QAPreds xs \<Rightarrow> Inr xs | _ \<Rightarrow> if len s = 0 then Inr [] else Inl TypeError)"

definition as_qa_labels :: "'a py_seq \<Rightarrow> py_error + qa_label list" where
  "as_qa_labels s =
     (case s of QALabels xs \<Rightarrow> Inr xs | _ \<Rightarrow> if len s = 0 then Inr [] else Inl TypeError)"

definition as_arrays :: "py_error \<Rightarrow> 'a py_seq \<Rightarrow> py_error + int list list" where
  "as_arrays err s =
     (case s of Arrays xs \<Rightarrow> Inr xs | _ \<Rightarrow> if len s = 0 then Inr [] else Inl err)"

subsection \<open>External statistics routines\<close>

text \<open>
  The routines of scikit-learn, scipy, seqeval and numpy are parameters of the
  model, each with the argument order of its call site. \<open>correct_mean\<close> stands for
  the body of \<open>simple_accuracy\<close> up to its result: the flattening by
  \<open>farm.utils.flatten_list\<close>, the conversion to arrays, the type assertion, the
  element-wise comparison and the mean.
\<close>

datatype label_set = Ids "nat list" | Names "string list"

record report_kwargs =
  digits :: nat
  labels_kw :: label_set
  target_names :: "string list"

datatype printable = Str string | Score np_float | Dict metrics

type_synonym 'a metric_fn = "'a py_seq \<Rightarrow> 'a py_seq \<Rightarrow> py_error + metrics"
type_synonym 'a stat_fn = "'a py_seq \<Rightarrow> 'a py_seq \<Rightarrow> py_error + np_float"
type_synonym 'a report_fn =
  "'a py_seq \<Rightarrow> 'a py_seq \<Rightarrow> report_kwargs option \<Rightarrow> py_error + printable"

record 'a routines =
  matthews_corrcoef :: "'a stat_fn"
  f1_score :: "'a stat_fn"
  f1_score_macro :: "'a stat_fn"
  pearsonr :: "'a stat_fn"
  spearmanr :: "'a stat_fn"
  ner_f1_score :: "'a stat_fn"
  mean_squared_error :: "'a stat_fn"
  r2_score :: "'a stat_fn"
  correct_mean :: "'a stat_fn"
  token_classification_report :: "'a report_fn"
  classification_report :: "'a report_fn"
  r2_score_report :: "'a report_fn"

definition np_avg :: "np_float \<Rightarrow> np_float \<Rightarrow> np_float" where
  "np_avg a b = (case (a, b) of (Float x, Float y) \<Rightarrow> Float ((x + y) / 2) | _ \<Rightarrow> NaN)"

subsection \<open>The registries\<close>

type_synonym 'a metric_registry = "string \<rightharpoonup> 'a metric_fn"
type_synonym 'a report_registry = "string \<rightharpoonup> 'a report_fn"

definition registered_metrics_init :: "'a metric_registry" where
  "registered_metrics_init = Map.empty"

definition registered_reports_init :: "'a report_registry" where
  "registered_reports_init = Map.empty"

definition register_metrics ::
    "'a metric_registry \<Rightarrow> string \<Rightarrow> 'a metric_fn \<Rightarrow> 'a metric_registry" where
  "register_metrics registered_metrics name implementation =
     registered_metrics(name \<mapsto> implementation)"

definition register_report ::
    "'a report_registry \<Rightarrow> string \<Rightarrow> 'a report_fn \<Rightarrow> 'a report_registry" where
  "register_report registered_reports name implementation =
     registered_reports(name \<mapsto> implementation)"

subsection \<open>Scalar metrics\<close>

definition simple_accuracy :: "'a routines \<Rightarrow> 'a metric_fn" where
  "simple_accuracy env preds labels =
     ebind (correct_mean env preds labels) (\<lambda>acc. Inr [(''acc'', NpNum acc)])"

definition acc_and_f1 :: "'a routines \<Rightarrow> 'a metric_fn" where
  "acc_and_f1 env preds labels =
     ebind (simple_accuracy env preds labels) (\<lambda>acc.
     ebind (f1_score env labels preds) (\<lambda>f1.
       case map_of acc ''acc'' of
         Some (NpNum a) \<Rightarrow>
           Inr [(''acc'', NpNum a), (''f1'', NpNum f1), (''acc_and_f1'', NpNum (np_avg a f1))]
       | _ \<Rightarrow> Inl (KeyError ''acc'')))"

definition f1_macro :: "'a routines \<Rightarrow> 'a metric_fn" where
  "f1_macro env preds labels =
     ebind (f1_score_macro env labels preds) (\<lambda>f1. Inr [(''f1_macro'', NpNum f1)])"

definition pearson_and_spearman :: "'a routines \<Rightarrow> 'a metric_fn" where
  "pearson_and_spearman env preds labels =
     ebind (pearsonr env preds labels) (\<lambda>pearson_corr.
     ebind (spearmanr env preds labels) (\<lambda>spearman_corr.
       Inr [(''pearson'', NpNum pearson_corr), (''spearman'', NpNum spearman_corr),
            (''corr'', NpNum (np_avg pearson_corr spearman_corr))]))"

subsection \<open>Text similarity\<close>

text \<open>
  The rankings and the relevance vectors are numpy integer arrays.
  \<open>np_nonzero_eq y v\<close> is \<open>(y == v).nonzero()[0]\<close>, the positions at which \<open>y\<close> holds
  \<open>v\<close>; \<open>np_item\<close> is \<open>.item()\<close>, which needs an array of exactly one element.
\<close>

definition np_nonzero_eq :: "int list \<Rightarrow> int \<Rightarrow> nat list" where
  "np_nonzero_eq y v = filter (\<lambda>j. y ! j = v) [0..<length y]"

definition np_item :: "nat list \<Rightarrow> py_error + nat" where
  "np_item a = (case a of [x] \<Rightarrow> Inr x | _ \<Rightarrow> Inl ValueError)"

definition top_1_body :: "int list \<Rightarrow> int list \<Rightarrow> py_error + int list" where
  "top_1_body y x =
     ebind (getitem y 0) (\<lambda>y0.
       Inr (x @ replicate (nat y0) 0 @ [1] @ replicate (nat (int (length y) - y0 - 1)) 0))"

definition text_similarity_acc_and_f1 :: "'a routines \<Rightarrow> 'a metric_fn" where
  "text_similarity_acc_and_f1 env preds labels =
     ebind (as_arrays TypeError preds) (\<lambda>p.
     ebind (for_each p top_1_body []) (\<lambda>top_1_pred.
     ebind (as_arrays (AttributeError ''astype'') labels) (\<lambda>l.
       let labels = concat l
       in acc_and_f1 env (Ints top_1_pred) (Ints labels))))"

definition avg_ranks_body :: "int list list \<Rightarrow> nat \<times> nat \<Rightarrow> nat \<Rightarrow> py_error + nat" where
  "avg_ranks_body preds ix rank =
     (case ix of (i, idx) \<Rightarrow>
        ebind (getitem preds i) (\<lambda>p.
          let gold_idx = np_nonzero_eq p (int idx)
          in ebind (np_item gold_idx) (\<lambda>g. Inr (rank + g))))"

definition text_similarity_avg_ranks :: "int list list \<Rightarrow> int list list \<Rightarrow> py_error + real" where
  "text_similarity_avg_ranks preds labels =
     (let positive_idx_per_question = concat (map (\<lambda>y. np_nonzero_eq y 1) labels)
      in ebind (for_each (enumerate 0 positive_idx_per_question) (avg_ranks_body preds) 0)
           (\<lambda>rank.
             if length preds = 0 then Inl ZeroDivisionError
             else Inr (real rank / real (length preds))))"

definition dict_set :: "string \<Rightarrow> metric_value \<Rightarrow> metrics \<Rightarrow> metrics" where
  "dict_set k v d =
     (if k \<in> fst ` set d then map (\<lambda>kv. if fst kv = k then (k, v) else kv) d
      else d @ [(k, v)])"

definition text_similarity_metric :: "'a routines \<Rightarrow> 'a metric_fn" where
  "text_similarity_metric env preds labels =
     ebind (text_similarity_acc_and_f1 env preds labels) (\<lambda>scores.
     ebind (as_arrays (AttributeError ''astype'') labels) (\<lambda>l.
     ebind (as_arrays TypeError preds) (\<lambda>p.
     ebind (text_similarity_avg_ranks p l) (\<lambda>r.
       Inr (dict_set ''average_rank'' (Num r) scores)))))"

subsection \<open>Dispatch by metric name\<close>

definition compute_metrics ::
    "'a routines \<Rightarrow> 'a metric_registry \<Rightarrow> string \<Rightarrow> 'a py_seq \<Rightarrow> 'a py_seq
       \<Rightarrow> py_error + metrics" where
  "compute_metrics env registered_metrics metric preds labels =
     (if len preds \<noteq> len labels then Inl AssertionError
      else if metric = ''mcc'' then
        ebind (matthews_corrcoef env labels preds) (\<lambda>v. Inr [(''mcc'', NpNum v)])
      else if metric = ''acc'' then simple_accuracy env preds labels
      else if metric = ''acc_f1'' then acc_and_f1 env preds labels
      else if metric = ''pear_spear'' then pearson_and_spearman env preds labels
      else if metric = ''seq_f1'' then
        ebind (ner_f1_score env labels preds) (\<lambda>v. Inr [(''seq_f1'', NpNum v)])
      else if metric = ''f1_macro'' then f1_macro env preds labels
      else if metric = ''squad'' then
        ebind (as_qa_preds preds) (\<lambda>p. ebind (as_qa_labels labels) (\<lambda>l. squad p l))
      else if metric = ''mse'' then
        ebind (mean_squared_error env preds labels) (\<lambda>v. Inr [(''mse'', NpNum v)])
      else if metric = ''r2'' then
        ebind (r2_score env preds labels) (\<lambda>v. Inr [(''r2'', NpNum v)])
      else if metric = ''top_n_accuracy'' then
        ebind (as_qa_preds preds) (\<lambda>p. ebind (as_qa_labels labels) (\<lambda>l.
        ebind (top_n_accuracy p l) (\<lambda>v. Inr [(''top_n_accuracy'', NpNum v)])))
      else if metric = ''text_similarity_metric'' then
        text_similarity_metric env preds labels
      else (case registered_metrics metric of
              Some metric_func \<Rightarrow> metric_func preds labels
            | None \<Rightarrow> Inl (KeyError metric)))"

subsection \<open>Dispatch by output type of the prediction head\<close>

record head =
  ph_output_type :: string
  model_type :: string
  label_list :: "string list"

definition not_implemented_report :: "'a report_fn" where
  "not_implemented_report labels preds kwargs = Inr (Str ''Not Implemented'')"

definition select_report_fn ::
    "'a routines \<Rightarrow> 'a report_registry \<Rightarrow> head \<Rightarrow> py_error + 'a report_fn" where
  "select_report_fn env registered_reports h =
     (case registered_reports (ph_output_type h) of
        Some report_fn \<Rightarrow> Inr report_fn
      | None \<Rightarrow>
          if ph_output_type h = ''per_token'' then Inr (token_classification_report env)
          else if ph_output_type h = ''per_sequence'' then Inr (classification_report env)
          else if ph_output_type h = ''per_token_squad'' then Inr not_implemented_report
          else if ph_output_type h = ''per_sequence_continuous'' then Inr (r2_score_report env)
          else Inl (AttributeError (ph_output_type h)))"

text \<open>
  The second half of \<open>compute_report_metrics\<close>: the call of the selected report
  function, with the parameters reshaped for the \<open>per_sequence\<close> heads.
\<close>

definition call_report ::
    "'a report_fn \<Rightarrow> head \<Rightarrow> 'a py_seq \<Rightarrow> 'a py_seq \<Rightarrow> py_error + printable" where
  "call_report report_fn h preds labels =
     (if ph_output_type h \<in> set [''per_sequence''] then
        (if model_type h = ''multilabel_text_classification'' then
           let all_possible_labels = Ids [0..<length (label_list h)]
           in report_fn labels preds
                (Some \<lparr>digits = 4, labels_kw = all_possible_labels,
                       target_names = label_list h\<rparr>)
         else if model_type h = ''text_similarity'' then
           ebind (as_arrays (AttributeError ''astype'') labels) (\<lambda>l.
             let labels = Ints (concat l)
             in ebind (as_arrays TypeError preds) (\<lambda>p.
                ebind (for_each p top_1_body []) (\<lambda>top_1.
                  let preds = Ints top_1;
                      all_possible_labels = Ids [0..<length (label_list h)]
                  in report_fn labels preds
                       (Some \<lparr>digits = 4, labels_kw = all_possible_labels,
                              target_names = label_list h\<rparr>))))
         else
           let all_possible_labels = Names (label_list h)
           in report_fn labels preds
                (Some \<lparr>digits = 4, labels_kw = all_possible_labels,
                       target_names = label_list h\<rparr>))
      else report_fn labels preds None)"

definition compute_report_metrics ::
    "'a routines \<Rightarrow> 'a report_registry \<Rightarrow> head \<Rightarrow> 'a py_seq \<Rightarrow> 'a py_seq
       \<Rightarrow> py_error + printable" where
  "compute_report_metrics env registered_reports h preds labels =
     ebind (select_report_fn env registered_reports h) (\<lambda>report_fn.
       call_report report_fn h preds labels)"

text \<open>The names that the \<open>elif\<close> chain of \<open>compute_metrics\<close> serves itself.\<close>

definition builtin_metrics :: "string list" where
  "builtin_metrics =
     [''mcc'', ''acc'', ''acc_f1'', ''pear_spear'', ''seq_f1'', ''f1_macro'', ''squad'',
      ''mse'', ''r2'', ''top_n_accuracy'', ''text_similarity_metric'']"

subsection \<open>Sample inputs\<close>

text \<open>
  Concrete routines, a custom metric and a custom report, for the instances at
  which the theorems below are evaluated.
\<close>

definition sample_stat :: "unit stat_fn" where
  "sample_stat a b = Inr (Float 0)"

definition sample_report :: "unit report_fn" where
  "sample_report a b kwargs = Inr (Str ''builtin report'')"

definition sample_routines :: "unit routines" where
  "sample_routines =
     \<lparr>matthews_corrcoef = sample_stat, f1_score = sample_stat, f1_score_macro = sample_stat,
      pearsonr = sample_stat, spearmanr = sample_stat, ner_f1_score = sample_stat,
      mean_squared_error = sample_stat, r2_score = sample_stat, correct_mean = sample_stat,
      token_classification_report = sample_report, classification_report = sample_report,
      r2_score_report = sample_report\<rparr>"

definition custom_metric :: "unit metric_fn" where
  "custom_metric preds labels = Inr [(''custom'', Num 42)]"

definition custom_report :: "unit report_fn" where
  "custom_report labels preds kwargs = Inr (Str ''custom report'')"

definition cand :: "int \<Rightarrow> int \<Rightarrow> real \<Rightarrow> qa_candidate" where
  "cand s e c = \<lparr>offset_answer_start = s, offset_answer_end = e, score = c\<rparr>"

subsection \<open>The overlap F1 of the specification\<close>

text \<open>
  The span of a candidate, a span as the set of its inclusive integer range, and
  the single-pair overlap F1 in the words of the specification: the no-answer
  sentinel is the pair \<open>(0, 0)\<close>, and otherwise the score is the harmonic mean of
  precision and recall of the overlap. \<open>squad_f1_single\<close> is compared with it below.
\<close>

definition span :: "qa_candidate \<Rightarrow> int \<times> int" where
  "span c = (offset_answer_start c, offset_answer_end c)"

definition span_set :: "int \<times> int \<Rightarrow> int set" where
  "span_set sp = {fst sp..snd sp}"

definition harmonic_mean :: "real \<Rightarrow> real \<Rightarrow> real" where
  "harmonic_mean p r = 2 * p * r / (p + r)"

definition overlap_f1_spec :: "int \<times> int \<Rightarrow> int \<times> int \<Rightarrow> real" where
  "overlap_f1_spec p l =
     (if p = (0, 0) \<or> l = (0, 0) then (if fst p = fst l then 1 else 0)
      else
        let overlap = card (span_set p \<inter> span_set l)
        in if overlap = 0 then 0
           else harmonic_mean (real overlap / real (card (span_set p)))
                              (real overlap / real (card (span_set l))))"

subsection \<open>Well-formed span batches\<close>

text \<open>
  A document is proper when the code can score it: its prediction has a ranked
  list with a best candidate, the best candidate's span starts no later than it
  ends, and the document has a gold span. A batch is proper when it is non-empty,
  aligned with its labels, and every document is proper. \<open>exact_doc\<close> says that the
  best candidate is literally one of the gold spans; \<open>hit_doc\<close> is the 0 or 1 that
  \<open>top_n_accuracy\<close> records for document \<open>i\<close>.
\<close>

definition exact_doc :: "qa_pred \<Rightarrow> qa_label \<Rightarrow> bool" where
  "exact_doc p l = (span (p ! 0 ! 0) \<in> set l)"

definition proper_doc :: "qa_pred \<Rightarrow> qa_label \<Rightarrow> bool" where
  "proper_doc p l =
     (p \<noteq> [] \<and> p ! 0 \<noteq> [] \<and> l \<noteq> [] \<and>
      offset_answer_start (p ! 0 ! 0) \<le> offset_answer_end (p ! 0 ! 0))"

definition proper_batch :: "qa_pred list \<Rightarrow> qa_label list \<Rightarrow> bool" where
  "proper_batch preds labels =
     (preds \<noteq> [] \<and> length preds = length labels \<and>
      list_all2 proper_doc preds labels)"

definition hit_doc :: "qa_pred list \<Rightarrow> qa_label list \<Rightarrow> nat \<Rightarrow> real" where
  "hit_doc preds labels i =
     (if projr (top_n_scan (preds ! i ! 0) labels i [0..<length (preds ! i ! 0)] 0) \<noteq> 0
      then 1 else 0)"

subsection \<open>Confidence bins of the specification\<close>

text \<open>
  The score of the best candidate of a document, and the bin the specification
  assigns to a score: \<open>floor(score * 10)\<close>, with the score 1 taken as 0.9999 and
  the product a float product. A document is scored when it has a best candidate
  whose score is a double in \<open>[0, 1]\<close>.
  \<open>binned zs\<close> is the state of the first loop of \<open>metrics_per_bin\<close> after the
  documents \<open>zs\<close>: every bin holds, in order, the documents assigned to it.
\<close>

definition best_score :: "qa_pred \<Rightarrow> real" where
  "best_score p = score (p ! 0 ! 0)"

definition scored_doc :: "qa_pred \<Rightarrow> bool" where
  "scored_doc p =
     (p \<noteq> [] \<and> p ! 0 \<noteq> [] \<and> is_double (best_score p) \<and>
      0 \<le> best_score p \<and> best_score p \<le> 1)"

definition confidence_bin :: "real \<Rightarrow> nat" where
  "confidence_bin s =
     nat \<lfloor>float_mul (if s = 1 then round_double (9999 / 10000) else s) 10\<rfloor>"

definition binned :: "(qa_pred \<times> qa_label) list \<Rightarrow> bins" where
  "binned zs =
     (map (\<lambda>b. map fst (filter (\<lambda>z. confidence_bin (best_score (fst z)) = b) zs)) [0..<10],
      map (\<lambda>b. map snd (filter (\<lambda>z. confidence_bin (best_score (fst z)) = b) zs)) [0..<10],
      map (\<lambda>b. length (filter (\<lambda>z. confidence_bin (best_score (fst z)) = b) zs)) [0..<10])"

text \<open>
  A batch with the scores \<open>1.0\<close>, \<open>0.8999999999999999\<close> (the double below \<open>0.9\<close>, which is
  \<open>0.6 + 0.3\<close>) and \<open>0.3\<close>, each written as the fraction the double is.
\<close>

definition sample_preds :: "qa_pred list" where
  "sample_preds =
     [[[cand 1 3 1]], [[cand 2 4 (8106479329266892 / 2 ^ 53)]],
      [[cand 0 0 (5404319552844595 / 2 ^ 54)]]]"

definition sample_labels :: "qa_label list" where
  "sample_labels = [[(1, 3)], [(2, 4)], [(0, 0)]]"

subsection \<open>Gold ranks of the specification\<close>

text \<open>
  \<open>position x xs\<close> is the 0-based position of the first \<open>x\<close> in \<open>xs\<close>. The gold passage
  of a relevance vector is the position of its 1; the gold rank of a query is the
  position of the gold passage in the predicted ranking. A query is ranked when
  its relevance vector has exactly one 1 and its ranking lists no passage twice
  and contains the gold passage; a batch is ranked when it is non-empty, aligned,
  and every query is ranked.
\<close>

definition position :: "'a \<Rightarrow> 'a list \<Rightarrow> nat" where
  "position x xs = length (takeWhile (\<lambda>y. y \<noteq> x) xs)"

definition gold_passage :: "int list \<Rightarrow> nat" where
  "gold_passage y = position 1 y"

definition gold_rank :: "int list \<Rightarrow> int list \<Rightarrow> nat" where
  "gold_rank p y = position (int (gold_passage y)) p"

definition ranked_query :: "int list \<Rightarrow> int list \<Rightarrow> bool" where
  "ranked_query p y =
     (count_list y 1 = 1 \<and> distinct p \<and> int (gold_passage y) \<in> set p)"

definition ranked_batch :: "int list list \<Rightarrow> int list list \<Rightarrow> bool" where
  "ranked_batch preds labels = (preds \<noteq> [] \<and> list_all2 ranked_query preds labels)"

section \<open>Properties\<close>

subsection \<open>Dispatch\<close>

lemma compute_metrics_not_builtin:
  "len preds = len labels \<Longrightarrow> metric \<notin> set builtin_metrics \<Longrightarrow>
     compute_metrics env registered_metrics metric preds labels =
       (case registered_metrics metric of
          Some metric_func \<Rightarrow> metric_func preds labels
        | None \<Rightarrow> Inl (KeyError metric))"
  by (simp add: compute_metrics_def builtin_metrics_def)

lemma compute_metrics_builtin:
  "metric \<in> set builtin_metrics \<Longrightarrow>
     compute_metrics env registered_metrics metric preds labels =
     compute_metrics env registered_metrics' metric preds labels"
  by (auto simp add: compute_metrics_def builtin_metrics_def)

lemma select_report_fn_registered:
  "registered_reports (ph_output_type h) = Some report_fn \<Longrightarrow>
     select_report_fn env registered_reports h = Inr report_fn"
  by (simp add: select_report_fn_def)

text \<open>
  Claim C1. Whatever the metric name, built-in or registered, and whatever the
  routines and the registry, \<open>compute_metrics\<close> on \<open>preds\<close> and \<open>labels\<close> of different
  lengths raises the \<open>AssertionError\<close> of its first statement; no routine is
  consulted, since the result does not depend on \<open>env\<close> or on the registry.
\<close>

theorem compute_metrics_length_mismatch:
  "len preds \<noteq> len labels \<Longrightarrow>
     compute_metrics env registered_metrics metric preds labels = Inl AssertionError"
  by (simp add: compute_metrics_def)

theorem compute_metrics_length_mismatch_witness:
  "len (Ints [1, 2] :: unit py_seq) \<noteq> len (Ints [1] :: unit py_seq) \<and>
   compute_metrics sample_routines
     (register_metrics registered_metrics_init ''custom'' custom_metric)
     ''custom'' (Ints [1, 2]) (Ints [1]) = Inl AssertionError \<and>
   compute_metrics sample_routines registered_metrics_init ''acc'' (Ints [1, 2]) (Ints [1])
     = Inl AssertionError"
  using compute_metrics_length_mismatch
          [of "Ints [1, 2] :: unit py_seq" "Ints [1]" sample_routines
              "register_metrics registered_metrics_init ''custom'' custom_metric" "''custom''"]
        compute_metrics_length_mismatch
          [of "Ints [1, 2] :: unit py_seq" "Ints [1]" sample_routines
              registered_metrics_init "''acc''"]
  by simp

text \<open>
  Claim C2, as stated, fails on the compute path: a function registered under the
  built-in name \<open>squad\<close> is not the one that \<open>compute_metrics\<close> runs, because the
  registry is the last branch of the \<open>elif\<close> chain.
\<close>

theorem registered_squad_not_invoked:
  "register_metrics registered_metrics_init ''squad'' custom_metric ''squad''
     = Some custom_metric \<and>
   compute_metrics sample_routines
     (register_metrics registered_metrics_init ''squad'' custom_metric)
     ''squad'' (QAPreds []) (QALabels []) \<noteq> custom_metric (QAPreds []) (QALabels [])"
  by (simp add: compute_metrics_def register_metrics_def custom_metric_def as_qa_preds_def
        as_qa_labels_def squad_def squad_EM_def squad_f1_def top_n_accuracy_def
        confidence_def metrics_per_bin_def ebind_def np_mean_def per_bin_body_def
        squad_EM_start_def getitem_def upt_rec numeral_eq_Suc)

text \<open>
  Claim C2, amended. On the compute path a registered function is the one invoked
  when its name is not one of the built-in metric names (and the lengths agree).
  On the report path the function registered under the head's output type is
  the one invoked, before any built-in report, also for the built-in output types.
\<close>

theorem registry_precedence:
  "(len preds = len labels \<longrightarrow> metric \<notin> set builtin_metrics \<longrightarrow>
      registered_metrics metric = Some metric_func \<longrightarrow>
      compute_metrics env registered_metrics metric preds labels = metric_func preds labels) \<and>
   (registered_reports (ph_output_type h) = Some report_fn \<longrightarrow>
      compute_report_metrics env registered_reports h preds labels =
        call_report report_fn h preds labels)"
  by (simp add: compute_metrics_not_builtin compute_report_metrics_def
        select_report_fn_registered ebind_def)

theorem registry_precedence_witness:
  "len (Ints [1] :: unit py_seq) = len (Ints [0] :: unit py_seq) \<and>
   ''custom'' \<notin> set builtin_metrics \<and>
   register_metrics registered_metrics_init ''custom'' custom_metric ''custom''
     = Some custom_metric \<and>
   compute_metrics sample_routines
     (register_metrics registered_metrics_init ''custom'' custom_metric)
     ''custom'' (Ints [1]) (Ints [0]) = Inr [(''custom'', Num 42)] \<and>
   register_report registered_reports_init ''per_token'' custom_report
     (ph_output_type \<lparr>ph_output_type = ''per_token'', model_type = ''ner'', label_list = []\<rparr>)
       = Some custom_report \<and>
   compute_report_metrics sample_routines
     (register_report registered_reports_init ''per_token'' custom_report)
     \<lparr>ph_output_type = ''per_token'', model_type = ''ner'', label_list = []\<rparr>
     (Ints [1]) (Ints [0]) = Inr (Str ''custom report'')"
  using registry_precedence
          [of "Ints [1] :: unit py_seq" "Ints [0]" "''custom''"
              "register_metrics registered_metrics_init ''custom'' custom_metric" custom_metric
              sample_routines
              "register_report registered_reports_init ''per_token'' custom_report"
              "\<lparr>ph_output_type = ''per_token'', model_type = ''ner'', label_list = []\<rparr>"
              custom_report]
  by (simp add: builtin_metrics_def register_metrics_def register_report_def custom_metric_def
        custom_report_def call_report_def)

text \<open>
  Claim C9. On inputs of equal length, a metric name that is neither built-in nor
  registered makes \<open>compute_metrics\<close> raise \<open>KeyError\<close> with that name; a name that is
  registered and not built-in makes it return what the registered function returns
  on the same \<open>preds\<close> and \<open>labels\<close>.
\<close>

theorem compute_metrics_unknown_or_registered:
  assumes "len preds = len labels" and "metric \<notin> set builtin_metrics"
  shows "(registered_metrics metric = None \<longrightarrow>
            compute_metrics env registered_metrics metric preds labels
              = Inl (KeyError metric)) \<and>
         (\<forall>metric_func. registered_metrics metric = Some metric_func \<longrightarrow>
            compute_metrics env registered_metrics metric preds labels
              = metric_func preds labels)"
  using assms by (simp add: compute_metrics_not_builtin)

theorem compute_metrics_unknown_or_registered_witness:
  "len (Ints [1] :: unit py_seq) = len (Ints [0] :: unit py_seq) \<and>
   ''custom'' \<notin> set builtin_metrics \<and>
   registered_metrics_init ''custom'' = (None :: unit metric_fn option) \<and>
   compute_metrics sample_routines registered_metrics_init ''custom'' (Ints [1]) (Ints [0])
     = Inl (KeyError ''custom'') \<and>
   register_metrics registered_metrics_init ''custom'' custom_metric ''custom''
     = Some custom_metric \<and>
   compute_metrics sample_routines
     (register_metrics registered_metrics_init ''custom'' custom_metric)
     ''custom'' (Ints [1]) (Ints [0]) = Inr [(''custom'', Num 42)]"
  using compute_metrics_unknown_or_registered
          [of "Ints [1] :: unit py_seq" "Ints [0]" "''custom''" registered_metrics_init
              sample_routines]
        compute_metrics_unknown_or_registered
          [of "Ints [1] :: unit py_seq" "Ints [0]" "''custom''"
              "register_metrics registered_metrics_init ''custom'' custom_metric"
              sample_routines]
  by (simp add: builtin_metrics_def registered_metrics_init_def register_metrics_def
        custom_metric_def)

subsection \<open>Start-only exact match\<close>

text \<open>
  Claim C3. Start-only exact match should count a document whose predicted start is
  one of the gold starts. The code collects \<open>label[1]\<close>, the gold ends: the
  prediction \<open>(1, 3)\<close> against the gold span \<open>(1, 3)\<close> scores 0, and the prediction
  \<open>(3, 5)\<close>, whose start is the gold end, scores 1.
\<close>

theorem squad_EM_start_compares_gold_end:
  "squad_EM_start [[[cand 1 3 (9 / 10)]]] [[(1, 3)]] = Inr 0 \<and>
   squad_EM_start [[[cand 3 5 (9 / 10)]]] [[(1, 3)]] = Inr 1"
  by (simp add: squad_EM_start_def squad_EM_start_body_def ebind_def getitem_def cand_def)

subsection \<open>The empty batch\<close>

text \<open>
  Claim C7. On the empty batch the aggregate metric returns 0 for exact match and
  for the confidence, but \<open>nan\<close> for the document F1 and for the top-N accuracy,
  which take \<open>numpy.mean\<close> of an empty list without the guard that the other two have.
\<close>

theorem squad_empty_batch:
  "squad [] [] =
     Inr [(''EM'', Num 0), (''f1'', NpNum NaN), (''top_n_accuracy'', NpNum NaN),
          (''confidence'', Num 0), (''em_per_bin'', NumList (replicate 10 0)),
          (''confidence_per_bin'', NumList (replicate 10 0)),
          (''count_per_bin'', CountList (replicate 10 0))]"
  by (simp add: squad_def squad_EM_def squad_f1_def top_n_accuracy_def confidence_def
        metrics_per_bin_def ebind_def np_mean_def per_bin_body_def squad_EM_start_def
        getitem_def upt_rec numeral_eq_Suc)

subsection \<open>Single-pair overlap F1\<close>

lemma overlap_count:
  "length (filter (\<lambda>x. x \<in> set [c..d]) [a..b]) = card ({a..b} \<inter> {c..d})"
proof -
  have "distinct (filter (\<lambda>x. x \<in> set [c..d]) [a..b])" by simp
  then have "length (filter (\<lambda>x. x \<in> set [c..d]) [a..b])
               = card (set (filter (\<lambda>x. x \<in> set [c..d]) [a..b]))"
    by (simp only: distinct_card)
  also have "set (filter (\<lambda>x. x \<in> set [c..d]) [a..b]) = {a..b} \<inter> {c..d}"
    by auto
  finally show ?thesis .
qed

lemma length_upto_card: "length [a..b] = card {a..b}"
  by simp


text \<open>What \<open>squad_f1_single\<close> computes, with the spans as sets.\<close>

lemma squad_f1_single_sets:
  assumes "pred_idx < length pred"
  shows "squad_f1_single pred l pred_idx =
     Inr (let p = span (pred ! pred_idx) in
          if fst p + snd p = 0 \<or> fst l + snd l = 0 then (if fst p = fst l then 1 else 0)
          else
            let overlap = card (span_set p \<inter> span_set l)
            in if overlap = 0 then 0
               else harmonic_mean (real overlap / real (card (span_set p)))
                                  (real overlap / real (card (span_set l))))"
  using assms
  unfolding squad_f1_single_def Let_def overlap_count length_upto_card
  by (simp add: ebind_def getitem_def span_def span_set_def harmonic_mean_def
        split: prod.splits del: card_atLeastAtMost_int Int_atLeastAtMost)

lemma harmonic_mean_commute: "harmonic_mean p r = harmonic_mean r p"
  by (simp add: harmonic_mean_def mult.commute add.commute mult.left_commute)

lemma harmonic_mean_unit:
  assumes "0 < p" "p \<le> 1" "0 < r" "r \<le> 1"
  shows "0 \<le> harmonic_mean p r \<and> harmonic_mean p r \<le> 1"
proof -
  have "p * r \<le> p * 1" using assms by (intro mult_left_mono) auto
  moreover have "p * r \<le> 1 * r" using assms by (intro mult_right_mono) auto
  ultimately have "2 * p * r \<le> p + r" by simp
  moreover have "0 < p + r" using assms by simp
  ultimately show ?thesis using assms by (simp add: harmonic_mean_def)
qed

lemma squad_f1_single_symmetric_general:
  assumes "i < length p" "j < length q"
  shows "squad_f1_single p (span (q ! j)) i = squad_f1_single q (span (p ! i)) j"
  using assms
  by (auto simp add: squad_f1_single_sets Let_def Int_commute harmonic_mean_commute span_def)

lemma squad_f1_single_range_general:
  assumes "i < length p"
  shows "\<exists>v. squad_f1_single p l i = Inr v \<and> 0 \<le> v \<and> v \<le> 1"
proof -
  let ?s = "span (p ! i)"
  let ?n = "card (span_set ?s \<inter> span_set l)"
  have fin: "finite (span_set ?s)" "finite (span_set l)" by (simp_all add: span_set_def)
  have le1: "?n \<le> card (span_set ?s)" using fin by (intro card_mono) auto
  have le2: "?n \<le> card (span_set l)" using fin by (intro card_mono) auto
  have "0 \<le> harmonic_mean (real ?n / real (card (span_set ?s))) (real ?n / real (card (span_set l)))
        \<and> harmonic_mean (real ?n / real (card (span_set ?s))) (real ?n / real (card (span_set l))) \<le> 1"
    if "?n \<noteq> 0"
    using that le1 le2 by (intro harmonic_mean_unit) auto
  then show ?thesis
    using assms by (auto simp add: squad_f1_single_sets Let_def)
qed

text \<open>
  Claim C10. For two spans with non-negative offsets and start at most end, the
  single-pair overlap F1 is a value between 0 and 1, and it is the same when the
  predicted span and the gold span change places.
\<close>

theorem squad_f1_single_unit_symmetric:
  assumes "i < length p" and "j < length q"
    and "0 \<le> offset_answer_start (p ! i)"
    and "offset_answer_start (p ! i) \<le> offset_answer_end (p ! i)"
    and "0 \<le> offset_answer_start (q ! j)"
    and "offset_answer_start (q ! j) \<le> offset_answer_end (q ! j)"
  shows "\<exists>v. squad_f1_single p (span (q ! j)) i = Inr v \<and>
             squad_f1_single q (span (p ! i)) j = Inr v \<and> 0 \<le> v \<and> v \<le> 1"
  using squad_f1_single_range_general [OF assms(1), of "span (q ! j)"]
        squad_f1_single_symmetric_general [OF assms(1) assms(2)]
  by auto

theorem squad_f1_single_unit_symmetric_witness:
  "(0::nat) < length [cand 1 3 (9 / 10)] \<and> (0::nat) < length [cand 2 6 (1 / 2)] \<and>
   squad_f1_single [cand 1 3 (9 / 10)] (span ([cand 2 6 (1 / 2)] ! 0)) 0 = Inr (1 / 2) \<and>
   squad_f1_single [cand 2 6 (1 / 2)] (span ([cand 1 3 (9 / 10)] ! 0)) 0 = Inr (1 / 2)"
  using squad_f1_single_unit_symmetric [of 0 "[cand 1 3 (9 / 10)]" 0 "[cand 2 6 (1 / 2)]"]
  by (simp add: cand_def span_def squad_f1_single_sets span_set_def harmonic_mean_def Let_def)

text \<open>
  Claim C4, as stated, fails where an offset is negative: the code takes a span
  for the no-answer sentinel when start and end add up to 0. The predicted span
  \<open>(-2, 2)\<close> is not \<open>(0, 0)\<close> and shares four positions with the gold span
  \<open>(-1, 3)\<close>, which makes an F1 of 4/5; the code returns 0.
\<close>

theorem sum_zero_span_is_sentinel:
  "squad_f1_single [cand (- 2) 2 (1 / 2)] (- 1, 3) 0 = Inr 0 \<and>
   overlap_f1_spec (span (cand (- 2) 2 (1 / 2))) (- 1, 3) = 4 / 5"
  by (simp add: cand_def span_def squad_f1_single_sets overlap_f1_spec_def
        span_set_def harmonic_mean_def Let_def)

text \<open>
  Claim C4, amended. For spans with non-negative offsets, \<open>squad_f1_single\<close> is the
  overlap F1 of the specification: with the sentinel \<open>(0, 0)\<close> on either side it is
  1 if the starts agree and 0 otherwise; otherwise it is the harmonic mean of
  overlap/|pred_span| and overlap/|label_span|, and 0 for an empty overlap. In
  particular identical spans with start at most end score 1 and disjoint spans
  score 0.
\<close>

theorem squad_f1_single_spec:
  assumes "pred_idx < length pred"
    and "0 \<le> offset_answer_start (pred ! pred_idx)"
    and "0 \<le> offset_answer_end (pred ! pred_idx)"
    and "0 \<le> fst label" and "0 \<le> snd label"
  shows "squad_f1_single pred label pred_idx
           = Inr (overlap_f1_spec (span (pred ! pred_idx)) label) \<and>
         (span (pred ! pred_idx) = label \<and> fst label \<le> snd label \<longrightarrow>
            squad_f1_single pred label pred_idx = Inr 1) \<and>
         (span_set (span (pred ! pred_idx)) \<inter> span_set label = {} \<longrightarrow>
            squad_f1_single pred label pred_idx = Inr 0)"
proof -
  let ?p = "span (pred ! pred_idx)"
  have sent_p: "fst ?p + snd ?p = 0 \<longleftrightarrow> ?p = (0, 0)"
    using assms(2,3) by (auto simp add: span_def)
  have sent_l: "fst label + snd label = 0 \<longleftrightarrow> label = (0, 0)"
    using assms(4,5) by (cases label) auto
  have main: "squad_f1_single pred label pred_idx = Inr (overlap_f1_spec ?p label)"
    unfolding squad_f1_single_sets [OF assms(1)] overlap_f1_spec_def Let_def sent_p sent_l ..
  have same: "overlap_f1_spec ?p label = 1" if "?p = label" "fst label \<le> snd label"
  proof -
    have "card (span_set label) \<noteq> 0" using that(2) by (simp add: span_set_def)
    then show ?thesis
      using that by (simp add: overlap_f1_spec_def harmonic_mean_def Let_def)
  qed
  have disj: "overlap_f1_spec ?p label = 0" if d: "span_set ?p \<inter> span_set label = {}"
  proof (cases "?p = (0, 0) \<or> label = (0, 0)")
    case True
    have "fst ?p \<noteq> fst label"
    proof
      assume eq: "fst ?p = fst label"
      from True have "fst ?p = 0 \<and> 0 \<le> snd ?p \<and> 0 \<le> snd label"
        using assms(3,5) eq by (auto simp add: span_def)
      then have "0 \<in> span_set ?p \<inter> span_set label"
        using eq by (simp add: span_set_def)
      with d show False by simp
    qed
    with True show ?thesis by (simp add: overlap_f1_spec_def)
  next
    case False
    then show ?thesis using d by (simp add: overlap_f1_spec_def)
  qed
  show ?thesis using main same disj by simp
qed

theorem squad_f1_single_spec_witness:
  "squad_f1_single [cand 1 3 (9 / 10)] (2, 6) 0 = Inr (1 / 2) \<and>
   overlap_f1_spec (span ([cand 1 3 (9 / 10)] ! 0)) (2, 6) = 1 / 2 \<and>
   span ([cand 1 3 (9 / 10)] ! 0) = (1, 3) \<and>
   squad_f1_single [cand 1 3 (9 / 10)] (1, 3) 0 = Inr 1 \<and>
   span_set (span ([cand 1 3 (9 / 10)] ! 0)) \<inter> span_set (4, 6) = {} \<and>
   squad_f1_single [cand 1 3 (9 / 10)] (4, 6) 0 = Inr 0 \<and>
   squad_f1_single [cand 0 0 (1 / 5)] (0, 0) 0 = Inr 1"
  using squad_f1_single_spec [of 0 "[cand 1 3 (9 / 10)]" "(2, 6)"]
        squad_f1_single_spec [of 0 "[cand 1 3 (9 / 10)]" "(1, 3)"]
        squad_f1_single_spec [of 0 "[cand 1 3 (9 / 10)]" "(4, 6)"]
        squad_f1_single_spec [of 0 "[cand 0 0 (1 / 5)]" "(0, 0)"]
  by (simp add: cand_def span_def span_set_def squad_f1_single_sets overlap_f1_spec_def
        harmonic_mean_def Let_def)

subsection \<open>Exact match and top-N accuracy\<close>

lemma ebind_Inr [simp]: "ebind (Inr x) f = f x"
  by (simp add: ebind_def)

lemma ebind_Inl [simp]: "ebind (Inl e) f = Inl e"
  by (simp add: ebind_def)

lemma for_each_append:
  "for_each (xs @ ys) body s = ebind (for_each xs body s) (for_each ys body)"
  by (induction xs arbitrary: s) (auto simp add: ebind_def split: sum.splits)

lemma for_each_snoc:
  "for_each xs body s = Inr s' \<Longrightarrow> for_each (xs @ [x]) body s = body x s'"
  by (simp add: for_each_append ebind_def split: sum.splits)

lemma comprehension_map:
  "(\<And>x. x \<in> set xs \<Longrightarrow> f x = Inr (g x)) \<Longrightarrow> comprehension f xs = Inr (map g xs)"
  by (induction xs) auto

lemma py_max_ge:
  assumes "x \<in> set xs"
  shows "\<exists>m. py_max xs = Inr m \<and> x \<le> m"
proof (cases xs)
  case Nil
  with assms show ?thesis by simp
next
  case (Cons y ys)
  have "fold max ys y = Max (set (y # ys))" by (simp only: Max.set_eq_fold)
  moreover have "x \<le> Max (set (y # ys))" using assms Cons by (intro Max_ge) auto
  ultimately show ?thesis using Cons by (simp add: py_max_def)
qed

lemma squad_f1_single_identical:
  assumes "idx < length cp"
    and "offset_answer_start (cp ! idx) \<le> offset_answer_end (cp ! idx)"
  shows "squad_f1_single cp (span (cp ! idx)) idx = Inr 1"
proof -
  have "card (span_set (span (cp ! idx))) \<noteq> 0"
    using assms(2) by (simp add: span_set_def span_def)
  then show ?thesis
    using assms(1) by (simp add: squad_f1_single_sets harmonic_mean_def Let_def)
qed

text \<open>The scores of one candidate against the gold spans of a document.\<close>

lemma f1_comprehension:
  assumes "idx < length cp"
  shows "comprehension (\<lambda>label. squad_f1_single cp label idx) ls
           = Inr (map (\<lambda>label. projr (squad_f1_single cp label idx)) ls)"
proof (rule comprehension_map)
  fix x
  from squad_f1_single_range_general [OF assms, of x]
  show "squad_f1_single cp x idx = Inr (projr (squad_f1_single cp x idx))" by auto
qed

lemma top_n_scan_total:
  assumes "i < length labels" and "labels ! i \<noteq> []" and "\<forall>idx \<in> set idxs. idx < length cp"
  shows "\<exists>v. top_n_scan cp labels i idxs f = Inr v"
  using assms(3)
proof (induction idxs arbitrary: f)
  case Nil
  then show ?case by simp
next
  case (Cons idx idxs)
  then have idx: "idx < length cp" by simp
  let ?scores = "map (\<lambda>label. projr (squad_f1_single cp label idx)) (labels ! i)"
  from assms(2) obtain m where m: "py_max ?scores = Inr m"
    by (cases "labels ! i") (auto simp add: py_max_def)
  show ?case
  proof (cases "m = 0")
    case True
    with Cons.IH [of m] Cons.prems show ?thesis
      using assms(1) m by (simp add: getitem_def f1_comprehension [OF idx])
  next
    case False
    then show ?thesis
      using assms(1) m by (simp add: getitem_def f1_comprehension [OF idx])
  qed
qed

lemma top_n_scan_hit:
  assumes "i < length labels" and "cp \<noteq> []" and "span (cp ! 0) \<in> set (labels ! i)"
    and "offset_answer_start (cp ! 0) \<le> offset_answer_end (cp ! 0)"
  shows "\<exists>v. top_n_scan cp labels i [0..<length cp] f = Inr v \<and> v \<noteq> 0"
proof -
  have idx: "0 < length cp" using assms(2) by simp
  let ?scores = "map (\<lambda>label. projr (squad_f1_single cp label 0)) (labels ! i)"
  have "projr (squad_f1_single cp (span (cp ! 0)) 0) = 1"
    using squad_f1_single_identical [OF idx assms(4)] by simp
  then have "1 \<in> set ?scores" using assms(3) by force
  from py_max_ge [OF this] obtain m where m: "py_max ?scores = Inr m" "1 \<le> m" by blast
  have "[0..<length cp] = 0 # [1..<length cp]" using idx by (simp add: upt_conv_Cons)
  then show ?thesis
    using assms(1) m by (simp add: getitem_def f1_comprehension [OF idx])
qed

lemma proper_batch_nth:
  assumes "proper_batch preds labels" and "i < length preds"
  shows "proper_doc (preds ! i) (labels ! i)" and "i < length labels"
  using assms by (simp_all add: proper_batch_def list_all2_conv_all_nth)

lemma squad_EM_body_proper:
  assumes "proper_batch preds labels" and "i < length preds"
  shows "squad_EM_body preds labels i c
           = Inr (if exact_doc (preds ! i) (labels ! i) then c + 1 else c)"
  using proper_batch_nth [OF assms] assms(2)
  by (simp add: squad_EM_body_def getitem_def proper_doc_def exact_doc_def span_def)

lemma squad_EM_loop:
  assumes "proper_batch preds labels" and "k \<le> length preds"
  shows "for_each [0..<k] (squad_EM_body preds labels) 0
           = Inr (length (filter (\<lambda>i. exact_doc (preds ! i) (labels ! i)) [0..<k]))"
  using assms(2)
proof (induction k)
  case 0
  then show ?case by simp
next
  case (Suc k)
  then have "for_each [0..<k] (squad_EM_body preds labels) 0
               = Inr (length (filter (\<lambda>i. exact_doc (preds ! i) (labels ! i)) [0..<k]))"
    and k: "k < length preds" by simp_all
  from for_each_snoc [OF this(1), of k] squad_EM_body_proper [OF assms(1) k]
  show ?case by simp
qed

lemma top_n_accuracy_body_proper:
  assumes "proper_batch preds labels" and "i < length preds"
  shows "top_n_accuracy_body preds labels i acc = Inr (acc @ [hit_doc preds labels i])"
proof -
  note d = proper_batch_nth [OF assms]
  let ?cp = "preds ! i ! 0"
  from d have "\<exists>v. top_n_scan ?cp labels i [0..<length ?cp] 0 = Inr v"
    by (intro top_n_scan_total) (simp_all add: proper_doc_def)
  then obtain v where v: "top_n_scan ?cp labels i [0..<length ?cp] 0 = Inr v" ..
  show ?thesis
    using d assms(2) v
    by (simp add: top_n_accuracy_body_def getitem_def proper_doc_def hit_doc_def)
qed

lemma top_n_accuracy_loop:
  assumes "proper_batch preds labels" and "k \<le> length preds"
  shows "for_each [0..<k] (top_n_accuracy_body preds labels) []
           = Inr (map (hit_doc preds labels) [0..<k])"
  using assms(2)
proof (induction k)
  case 0
  then show ?case by simp
next
  case (Suc k)
  then have "for_each [0..<k] (top_n_accuracy_body preds labels) []
               = Inr (map (hit_doc preds labels) [0..<k])"
    and k: "k < length preds" by simp_all
  from for_each_snoc [OF this(1), of k] top_n_accuracy_body_proper [OF assms(1) k]
  show ?case by simp
qed

lemma exact_doc_is_hit:
  assumes "proper_batch preds labels" and "i < length preds"
    and "exact_doc (preds ! i) (labels ! i)"
  shows "hit_doc preds labels i = 1"
proof -
  note d = proper_batch_nth [OF assms(1,2)]
  let ?cp = "preds ! i ! 0"
  have "\<exists>v. top_n_scan ?cp labels i [0..<length ?cp] 0 = Inr v \<and> v \<noteq> 0"
    using d assms(3) by (intro top_n_scan_hit) (simp_all add: proper_doc_def exact_doc_def)
  then show ?thesis by (auto simp add: hit_doc_def)
qed

lemma count_le_sum:
  assumes "\<And>x. x \<in> set xs \<Longrightarrow> P x \<Longrightarrow> h x = 1" and "\<And>x. 0 \<le> h x"
  shows "real (length (filter P xs)) \<le> sum_list (map h xs)"
  using assms(1)
proof (induction xs)
  case Nil
  then show ?case by simp
next
  case (Cons x xs)
  have "real (length (filter P xs)) \<le> sum_list (map h xs)"
    using Cons by simp
  moreover have "(if P x then 1 else 0) \<le> h x"
    using Cons.prems [of x] assms(2) [of x] by simp
  ultimately show ?case by (cases "P x") simp_all
qed

text \<open>
  Claim C5, as stated, fails on a span that ends before it starts: the best
  candidate \<open>(5, 3)\<close> is literally the gold span \<open>(5, 3)\<close>, so exact match is 1, but
  its range is empty, its overlap F1 is 0, and top-N accuracy is 0.
\<close>

theorem degenerate_exact_match_is_no_hit:
  "squad_EM [[[cand 5 3 (9 / 10)]]] [[(5, 3)]] = Inr 1 \<and>
   top_n_accuracy [[[cand 5 3 (9 / 10)]]] [[(5, 3)]] = Inr (Float 0)"
  by (simp add: squad_EM_def squad_EM_body_def top_n_accuracy_def top_n_accuracy_body_def
        getitem_def cand_def squad_f1_single_def py_max_def np_mean_def Let_def)

text \<open>
  Claim C5, amended. For every non-empty aligned batch in which each document has
  a best candidate whose span starts no later than it ends and at least one gold
  span, both metrics return, and top-N accuracy is at least the document-level
  exact match.
\<close>

theorem top_n_accuracy_ge_squad_EM:
  assumes "proper_batch preds labels"
  shows "\<exists>em acc. squad_EM preds labels = Inr em \<and>
                  top_n_accuracy preds labels = Inr (Float acc) \<and> em \<le> acc"
proof -
  let ?n = "length preds"
  let ?count = "length (filter (\<lambda>i. exact_doc (preds ! i) (labels ! i)) [0..<?n])"
  let ?hits = "map (hit_doc preds labels) [0..<?n]"
  have n: "0 < ?n" using assms by (auto simp add: proper_batch_def)
  have em: "squad_EM preds labels = Inr (real ?count / real ?n)"
    using squad_EM_loop [OF assms, of ?n] n by (simp add: squad_EM_def Let_def)
  have acc: "top_n_accuracy preds labels = Inr (Float (sum_list ?hits / real ?n))"
    using top_n_accuracy_loop [OF assms, of ?n] n
    by (simp add: top_n_accuracy_def np_mean_def Let_def)
  have "real ?count \<le> sum_list ?hits"
  proof (rule count_le_sum)
    fix i assume "i \<in> set [0..<?n]" and "exact_doc (preds ! i) (labels ! i)"
    then show "hit_doc preds labels i = 1"
      using exact_doc_is_hit [OF assms] by simp
  next
    fix i show "0 \<le> hit_doc preds labels i" by (simp add: hit_doc_def)
  qed
  then have "real ?count / real ?n \<le> sum_list ?hits / real ?n"
    using n by (simp add: divide_right_mono)
  with em acc show ?thesis by blast
qed

theorem top_n_accuracy_ge_squad_EM_witness:
  "proper_batch [[[cand 7 9 (1 / 2), cand 2 3 (3 / 10)]], [[cand 2 4 (9 / 10)]]]
                [[(2, 3)], [(2, 4), (6, 8)]] \<and>
   squad_EM [[[cand 7 9 (1 / 2), cand 2 3 (3 / 10)]], [[cand 2 4 (9 / 10)]]]
            [[(2, 3)], [(2, 4), (6, 8)]] = Inr (1 / 2) \<and>
   top_n_accuracy [[[cand 7 9 (1 / 2), cand 2 3 (3 / 10)]], [[cand 2 4 (9 / 10)]]]
            [[(2, 3)], [(2, 4), (6, 8)]] = Inr (Float 1)"
  using top_n_accuracy_ge_squad_EM
          [of "[[[cand 7 9 (1 / 2), cand 2 3 (3 / 10)]], [[cand 2 4 (9 / 10)]]]"
              "[[(2, 3)], [(2, 4), (6, 8)]]"]
  by (simp add: proper_batch_def proper_doc_def squad_EM_def squad_EM_body_def
        top_n_accuracy_def top_n_accuracy_body_def getitem_def cand_def squad_f1_single_sets
        span_def span_set_def harmonic_mean_def py_max_def np_mean_def upt_rec Let_def)

subsection \<open>Rounding to binary64\<close>

lemma pow2_powr: "pow2 e = 2 powr real_of_int e"
  by (simp add: pow2_def powr_real_of_int divide_inverse)

lemma pow2_pos: "0 < pow2 e"
  by (simp add: pow2_powr)

lemma pow2_add: "pow2 (a + b) = pow2 a * pow2 b"
  by (simp add: pow2_powr powr_add)

lemma pow2_mono: "a \<le> b \<Longrightarrow> pow2 a \<le> pow2 b"
  by (simp add: pow2_powr)

lemma pow2_less_imp: "pow2 a < pow2 b \<Longrightarrow> a < b"
  by (simp add: pow2_powr)

lemma pow2_numeral [simp]: "pow2 (numeral n) = 2 ^ numeral n" "pow2 0 = 1" "pow2 1 = 2"
  "pow2 (- numeral n) = 1 / 2 ^ numeral n" "pow2 (- 1) = 1 / 2"
  by (simp_all add: pow2_def)

lemma ilog2_up_bounds:
  "1 \<le> x \<Longrightarrow> pow2 (ilog2_up x) \<le> x \<and> x < pow2 (ilog2_up x + 1)"
proof (induction x rule: ilog2_up.induct)
  case (1 x)
  show ?case
  proof (cases "x < 2")
    case True
    with "1.prems" show ?thesis by (simp add: ilog2_up.simps [of x])
  next
    case False
    then have "1 \<le> x / 2" by simp
    with "1.IH" False
    have "pow2 (ilog2_up (x / 2)) \<le> x / 2 \<and> x / 2 < pow2 (ilog2_up (x / 2) + 1)" by simp
    moreover have "ilog2_up x = ilog2_up (x / 2) + 1"
      using False by (simp add: ilog2_up.simps [of x])
    ultimately show ?thesis by (simp add: pow2_add)
  qed
qed

lemma ilog2_down_bounds:
  "0 < x \<Longrightarrow> x < 1 \<Longrightarrow> pow2 (ilog2_down x) \<le> x \<and> x < pow2 (ilog2_down x + 1)"
proof (induction x rule: ilog2_down.induct)
  case (1 x)
  have step: "ilog2_down x = ilog2_down (x * 2) - 1"
    using "1.prems" by (simp add: ilog2_down.simps [of x])
  show ?case
  proof (cases "1 \<le> x * 2")
    case True
    then have "ilog2_down (x * 2) = 0" by (simp add: ilog2_down.simps [of "x * 2"])
    with step True "1.prems" show ?thesis by simp
  next
    case False
    with "1.IH" "1.prems"
    have "pow2 (ilog2_down (x * 2)) \<le> x * 2 \<and> x * 2 < pow2 (ilog2_down (x * 2) + 1)"
      by simp
    moreover have "pow2 (ilog2_down (x * 2)) = 2 * pow2 (ilog2_down (x * 2) - 1)"
      using pow2_add [of 1 "ilog2_down (x * 2) - 1"] by simp
    moreover have "pow2 (ilog2_down (x * 2) + 1) = 2 * pow2 (ilog2_down (x * 2))"
      using pow2_add [of 1 "ilog2_down (x * 2)"] by (simp add: add.commute)
    ultimately show ?thesis using step by simp
  qed
qed

lemma exponent_bounds:
  assumes "0 < x"
  shows "x < pow2 (exponent x + 1)"
    and "pow2 (- 1022) \<le> x \<Longrightarrow> pow2 (exponent x) \<le> x"
    and "- 1022 < exponent x \<Longrightarrow> pow2 (exponent x) \<le> x"
proof -
  let ?e = "if 1 \<le> x then ilog2_up x else ilog2_down x"
  have b: "pow2 ?e \<le> x \<and> x < pow2 (?e + 1)"
    using assms ilog2_up_bounds [of x] ilog2_down_bounds [of x] by auto
  have e: "exponent x = max ?e (- 1022)" using assms by (simp add: exponent_def)
  have "pow2 (?e + 1) \<le> pow2 (exponent x + 1)" unfolding e by (intro pow2_mono) simp
  with b show "x < pow2 (exponent x + 1)" by simp
  show "pow2 (exponent x) \<le> x" if "pow2 (- 1022) \<le> x"
  proof (cases "- 1022 \<le> ?e")
    case True
    then have "exponent x = ?e" unfolding e by simp
    with b show ?thesis by simp
  next
    case False
    then have "exponent x = - 1022" unfolding e by simp
    with that show ?thesis by simp
  qed
  show "pow2 (exponent x) \<le> x" if "- 1022 < exponent x"
  proof -
    from that have "exponent x = ?e" unfolding e by simp
    with b show ?thesis by simp
  qed
qed

lemma exponent_eq:
  assumes "pow2 k \<le> x" and "x < pow2 (k + 1)" and "- 1022 \<le> k"
  shows "exponent x = k"
proof -
  have x: "0 < x" using assms(1) pow2_pos [of k] by linarith
  have "pow2 (- 1022) \<le> pow2 k" using assms(3) by (rule pow2_mono)
  with assms(1) have low: "pow2 (- 1022) \<le> x" by linarith
  from exponent_bounds [OF x] low
  have "x < pow2 (exponent x + 1)" and "pow2 (exponent x) \<le> x" by simp_all
  with assms(1,2) have "pow2 k < pow2 (exponent x + 1)" and "pow2 (exponent x) < pow2 (k + 1)"
    by linarith+
  then have "k < exponent x + 1" and "exponent x < k + 1" by (auto dest: pow2_less_imp)
  then show ?thesis by simp
qed

lemma round_half_even_ge: "real_of_int n \<le> y \<Longrightarrow> n \<le> round_half_even y"
proof -
  assume "real_of_int n \<le> y"
  then have "n \<le> \<lfloor>y\<rfloor>" by (simp add: le_floor_iff)
  then show ?thesis by (simp add: round_half_even_def Let_def)
qed

lemma round_half_even_le_half:
  assumes "y < real_of_int n + 1 / 2"
  shows "round_half_even y \<le> n"
proof -
  have f: "\<lfloor>y\<rfloor> \<le> n" using assms by (simp add: floor_le_iff)
  show ?thesis
  proof (cases "\<lfloor>y\<rfloor> = n")
    case True
    with assms have "y - real_of_int \<lfloor>y\<rfloor> < 1 / 2" by simp
    with True show ?thesis by (simp add: round_half_even_def Let_def)
  next
    case False
    with f have "\<lfloor>y\<rfloor> + 1 \<le> n" by simp
    then show ?thesis by (simp add: round_half_even_def Let_def)
  qed
qed

lemma round_half_even_le: "y \<le> real_of_int n \<Longrightarrow> round_half_even y \<le> n"
  by (rule round_half_even_le_half) simp

lemma round_double_binade:
  assumes "pow2 k \<le> x" and "x < pow2 (k + 1)" and "- 1022 \<le> k"
  shows "round_double x
           = real_of_int (round_half_even (x / pow2 (k - 52))) * pow2 (k - 52)"
  by (simp add: round_double_def ulp_def exponent_eq [OF assms])

lemma round_double_nonneg: "0 \<le> x \<Longrightarrow> 0 \<le> round_double x"
proof -
  assume "0 \<le> x"
  then have "real_of_int 0 \<le> x / ulp x"
    using pow2_pos [of "exponent x - 52"] by (simp add: ulp_def)
  then have "0 \<le> round_half_even (x / ulp x)" by (rule round_half_even_ge)
  then show ?thesis
    using pow2_pos [of "exponent x - 52"] by (simp add: round_double_def ulp_def)
qed

lemma round_double_below_8:
  assumes "0 \<le> x" and "x < 8"
  shows "round_double x \<le> 8"
proof (cases "x = 0")
  case True
  have "0 \<le> round_half_even (0 / ulp 0)" "round_half_even (0 / ulp 0) \<le> 0"
    using round_half_even_ge [of 0 0] round_half_even_le [of 0 0] by simp_all
  with True show ?thesis by (simp add: round_double_def)
next
  case False
  with assms have x: "0 < x" by simp
  let ?E = "exponent x"
  let ?u = "pow2 (?E - 52)"
  have u: "0 < ?u" by (rule pow2_pos)
  have E: "?E \<le> 2"
  proof (rule ccontr)
    assume "\<not> ?E \<le> 2"
    then have "3 \<le> ?E" by simp
    then have "pow2 3 \<le> pow2 ?E" by (rule pow2_mono)
    moreover have "pow2 ?E \<le> x" using \<open>3 \<le> ?E\<close> by (intro exponent_bounds(3) [OF x]) simp
    ultimately show False using assms(2) by simp
  qed
  have "?E + 1 = 53 + (?E - 52)" by simp
  then have split: "pow2 (?E + 1) = pow2 53 * ?u" by (simp only: pow2_add)
  have "x < pow2 53 * ?u" using exponent_bounds(1) [OF x] split by simp
  then have "x / ?u < real_of_int (2 ^ 53)" using u by (simp add: divide_less_eq)
  then have "x / ?u \<le> real_of_int (2 ^ 53)" by simp
  then have "round_half_even (x / ?u) \<le> 2 ^ 53" by (rule round_half_even_le)
  then have "real_of_int (round_half_even (x / ?u)) \<le> pow2 53" by simp
  then have "real_of_int (round_half_even (x / ?u)) * ?u \<le> pow2 53 * ?u"
    using u by (simp only: mult_le_cancel_right_pos)
  also have "\<dots> = pow2 (?E + 1)" using split by simp
  also have "\<dots> \<le> pow2 3" using E by (intro pow2_mono) simp
  finally show ?thesis by (simp add: round_double_def ulp_def)
qed

lemma round_double_8_16:
  assumes "8 \<le> x" and "x < 16"
  shows "round_double x = real_of_int (round_half_even (x * 2 ^ 49)) / 2 ^ 49"
  using round_double_binade [of 3 x] assms by simp

lemma round_double_below_10:
  assumes "8 \<le> x" and "x < 10 - 1 / 2 ^ 50"
  shows "round_double x < 10"
proof -
  have "x * 2 ^ 49 < real_of_int (10 * 2 ^ 49 - 1) + 1 / 2" using assms(2) by simp
  then have "round_half_even (x * 2 ^ 49) \<le> 10 * 2 ^ 49 - 1" by (rule round_half_even_le_half)
  then have "real_of_int (round_half_even (x * 2 ^ 49)) \<le> real_of_int (10 * 2 ^ 49 - 1)"
    by (simp only: of_int_le_iff)
  then have "real_of_int (round_half_even (x * 2 ^ 49)) \<le> 10 * 2 ^ 49 - 1" by simp
  moreover have "x < 16" using assms(2) by simp
  ultimately show ?thesis by (simp add: round_double_8_16 [OF assms(1)] divide_less_eq)
qed

lemma round_double_ge_9:
  assumes "9 \<le> x" and "x < 16"
  shows "9 \<le> round_double x"
proof -
  have "real_of_int (9 * 2 ^ 49) \<le> x * 2 ^ 49" using assms(1) by simp
  then have "9 * 2 ^ 49 \<le> round_half_even (x * 2 ^ 49)" by (rule round_half_even_ge)
  then have "real_of_int (9 * 2 ^ 49) \<le> real_of_int (round_half_even (x * 2 ^ 49))"
    by (simp only: of_int_le_iff)
  then have "9 * 2 ^ 49 \<le> real_of_int (round_half_even (x * 2 ^ 49))" by simp
  moreover have "8 \<le> x" using assms(1) by simp
  ultimately show ?thesis by (simp add: round_double_8_16 assms(2) le_divide_eq)
qed

lemma double_below_one:
  assumes "is_double s" and "s < 1"
  shows "s \<le> 1 - 1 / 2 ^ 53"
proof (cases "1 / 2 \<le> s")
  case False
  then show ?thesis by simp
next
  case True
  let ?n = "round_half_even (s / pow2 (- 53))"
  have "round_double s = real_of_int ?n * pow2 (- 53)"
    using round_double_binade [of "- 1" s] True assms(2) by simp
  with assms(1) have s: "s = real_of_int ?n / 2 ^ 53" by (simp add: is_double_def)
  with assms(2) have "real_of_int ?n < real_of_int (2 ^ 53)" by (simp add: divide_less_eq)
  then have "?n < 2 ^ 53" by (simp only: of_int_less_iff)
  then have "?n \<le> 2 ^ 53 - 1" by simp
  then have "real_of_int ?n \<le> real_of_int (2 ^ 53 - 1)" by (simp only: of_int_le_iff)
  then have "real_of_int ?n \<le> 2 ^ 53 - 1" by simp
  then have "real_of_int ?n / 2 ^ 53 \<le> 1 - 1 / 2 ^ 53" by (simp add: divide_le_eq)
  with s show ?thesis by simp
qed

lemma product_by_10:
  assumes "0 \<le> s" and "s \<le> 1 - 1 / 2 ^ 53"
  shows "0 \<le> round_double (s * 10)" and "round_double (s * 10) < 10"
    and "9 / 10 \<le> s \<Longrightarrow> 9 \<le> round_double (s * 10)"
proof -
  show "0 \<le> round_double (s * 10)" using assms(1) by (intro round_double_nonneg) simp
  show "round_double (s * 10) < 10"
  proof (cases "s * 10 < 8")
    case True
    with round_double_below_8 [of "s * 10"] assms(1) show ?thesis by simp
  next
    case False
    moreover have "s * 10 < 10 - 1 / 2 ^ 50" using assms(2) by simp
    ultimately show ?thesis by (intro round_double_below_10) simp_all
  qed
  show "9 \<le> round_double (s * 10)" if "9 / 10 \<le> s"
    using that assms(2) by (intro round_double_ge_9) simp_all
qed

lemma clamped_score: "round_double (9999 / 10000) = 9006298534815518 / 2 ^ 53"
  by code_simp

subsection \<open>Calibration bin counts\<close>

text \<open>
  The clamped score of a scored document lies between 0 and the largest double
  below 1, so its product with 10 rounds to a double in \<open>[0, 10)\<close>.
\<close>

lemma clamped_range:
  assumes "is_double s" and "0 \<le> s" and "s \<le> 1"
  shows "0 \<le> (if s = 1 then round_double (9999 / 10000) else s)"
    and "(if s = 1 then round_double (9999 / 10000) else s) \<le> 1 - 1 / 2 ^ 53"
    and "9 / 10 \<le> s \<Longrightarrow> 9 / 10 \<le> (if s = 1 then round_double (9999 / 10000) else s)"
proof -
  show "0 \<le> (if s = 1 then round_double (9999 / 10000) else s)"
    using assms(2) by (simp add: clamped_score)
  show "(if s = 1 then round_double (9999 / 10000) else s) \<le> 1 - 1 / 2 ^ 53"
  proof (cases "s = 1")
    case True
    then show ?thesis by (simp add: clamped_score)
  next
    case False
    with assms(3) have "s < 1" by simp
    with double_below_one [OF assms(1)] False show ?thesis by simp
  qed
  show "9 / 10 \<le> (if s = 1 then round_double (9999 / 10000) else s)" if "9 / 10 \<le> s"
    using that by (simp add: clamped_score)
qed

lemma bin_product:
  assumes "is_double s" and "0 \<le> s" and "s \<le> 1"
  shows "0 \<le> float_mul (if s = 1 then round_double (9999 / 10000) else s) 10"
    and "float_mul (if s = 1 then round_double (9999 / 10000) else s) 10 < 10"
    and "9 / 10 \<le> s \<Longrightarrow>
           9 \<le> float_mul (if s = 1 then round_double (9999 / 10000) else s) 10"
  unfolding float_mul_def
  using product_by_10 [OF clamped_range(1,2) [OF assms]] clamped_range(3) [OF assms]
  by blast+

lemma confidence_bin_less:
  assumes "is_double s" and "0 \<le> s" and "s \<le> 1"
  shows "confidence_bin s < 10"
proof -
  let ?P = "float_mul (if s = 1 then round_double (9999 / 10000) else s) 10"
  have "\<lfloor>?P\<rfloor> < 10" using bin_product(2) [OF assms] by (simp add: floor_less_iff)
  then have "nat \<lfloor>?P\<rfloor> < 10" by linarith
  then show ?thesis by (simp only: confidence_bin_def)
qed

lemma confidence_bin_top:
  assumes "is_double s" and "0 \<le> s" and "s \<le> 1" and "9 / 10 \<le> s"
  shows "confidence_bin s = 9"
proof -
  let ?P = "float_mul (if s = 1 then round_double (9999 / 10000) else s) 10"
  have "9 \<le> ?P" and "?P < 10"
    using bin_product(2,3) [OF assms(1-3)] assms(4) by blast+
  then have "\<lfloor>?P\<rfloor> = 9" by (simp add: floor_eq_iff)
  then have "nat \<lfloor>?P\<rfloor> = 9" by simp
  then show ?thesis by (simp only: confidence_bin_def)
qed

lemma bin_index_scored:
  assumes "is_double s" and "0 \<le> s" and "s \<le> 1"
  shows "bin_index 10 (if s = 1 then round_double (9999 / 10000) else s)
           = Inr (confidence_bin s)"
proof -
  let ?P = "float_mul (if s = 1 then round_double (9999 / 10000) else s) 10"
  note b = bin_product(1,2) [OF assms]
  have "(10::real) \<le> max_double" by (simp add: max_double_def)
  with b have "\<not> max_double < \<bar>?P\<bar>" by simp
  moreover have "py_int ?P = \<lfloor>?P\<rfloor>" using b(1) by (simp add: py_int_def)
  ultimately have "float_to_int ?P = Inr \<lfloor>?P\<rfloor>" by (simp add: float_to_int_def)
  moreover have "0 \<le> \<lfloor>?P\<rfloor>" using b(1) by simp
  moreover have "\<lfloor>?P\<rfloor> < 10" using b(2) by (simp add: floor_less_iff)
  ultimately show ?thesis
    unfolding bin_index_def confidence_bin_def by (simp add: list_index_def)
qed

lemma map_upt_update:
  "k < n \<Longrightarrow> (map f [0..<n])[k := v] = map (\<lambda>b. if b = k then v else f b) [0..<n]"
  by (rule nth_equalityI) (simp_all add: nth_list_update)

lemma metrics_per_bin_body_step:
  assumes "scored_doc p" and "length pb = 10" and "length lb = 10" and "length cnt = 10"
  shows "metrics_per_bin_body (p, l) (pb, lb, cnt) =
           Inr (pb[confidence_bin (best_score p) := pb ! confidence_bin (best_score p) @ [p]],
                lb[confidence_bin (best_score p) := lb ! confidence_bin (best_score p) @ [l]],
                cnt[confidence_bin (best_score p) := cnt ! confidence_bin (best_score p) + 1])"
proof -
  have g1: "getitem p 0 = Inr (p ! 0)" and g2: "getitem (p ! 0) 0 = Inr (p ! 0 ! 0)"
    using assms(1) by (simp_all add: getitem_def scored_doc_def)
  have idx: "bin_index 10 (if score (p ! 0 ! 0) = 1 then round_double (9999 / 10000)
                 else score (p ! 0 ! 0)) = Inr (confidence_bin (score (p ! 0 ! 0)))"
    using assms(1) by (intro bin_index_scored) (simp_all add: scored_doc_def best_score_def)
  show ?thesis
    unfolding metrics_per_bin_body_def best_score_def
    by (simp only: prod.case g1 g2 ebind_Inr Let_def assms(2-4) idx)
qed

lemma metrics_per_bin_body_binned:
  assumes "scored_doc p"
  shows "metrics_per_bin_body (p, l) (binned zs) = Inr (binned (zs @ [(p, l)]))"
proof -
  let ?k = "confidence_bin (best_score p)"
  have k: "?k < 10" using assms by (intro confidence_bin_less) (simp_all add: scored_doc_def)
  show ?thesis
    unfolding binned_def
    by (subst metrics_per_bin_body_step [OF assms])
       (simp_all add: map_upt_update k cong: map_cong)
qed

lemma binned_Nil: "binned [] = (replicate 10 [], replicate 10 [], replicate 10 0)"
  by (simp add: binned_def map_replicate_const)

lemma binning_loop:
  assumes "\<forall>z \<in> set ys. scored_doc (fst z)"
  shows "for_each ys metrics_per_bin_body (binned zs) = Inr (binned (zs @ ys))"
  using assms
proof (induction ys arbitrary: zs)
  case Nil
  then show ?case by simp
next
  case (Cons y ys)
  obtain p l where y: "y = (p, l)" by (cases y)
  with Cons.prems have "scored_doc p" by simp
  from metrics_per_bin_body_binned [OF this, of l zs] Cons.IH [of "zs @ [y]"] Cons.prems
  show ?case by (simp add: y)
qed

lemma for_each_total:
  assumes "\<And>x s. x \<in> set xs \<Longrightarrow> \<exists>s'. body x s = Inr s'"
  shows "\<exists>s'. for_each xs body s = Inr s'"
  using assms
proof (induction xs arbitrary: s)
  case Nil
  then show ?case by simp
next
  case (Cons x xs)
  from Cons.prems [of x s] obtain s1 where "body x s = Inr s1" by auto
  moreover from Cons.IH [of s1] Cons.prems obtain s2 where "for_each xs body s1 = Inr s2"
    by auto
  ultimately show ?case by simp
qed

lemma squad_EM_start_total:
  assumes "\<forall>p \<in> set xs. p \<noteq> [] \<and> p ! 0 \<noteq> []" and "length xs \<le> length ls"
  shows "\<exists>v. squad_EM_start xs ls = Inr v"
proof -
  have "\<exists>n. for_each [0..<length xs] (squad_EM_start_body xs ls) 0 = Inr n"
  proof (rule for_each_total)
    fix i c assume "i \<in> set [0..<length xs]"
    then have "i < length xs" by simp
    then show "\<exists>c'. squad_EM_start_body xs ls i c = Inr c'"
      using assms by (simp add: squad_EM_start_body_def getitem_def Let_def)
  qed
  then show ?thesis by (auto simp add: squad_EM_start_def Let_def)
qed

lemma confidence_total:
  assumes "\<forall>p \<in> set xs. p \<noteq> [] \<and> p ! 0 \<noteq> []"
  shows "\<exists>v. confidence xs = Inr v"
proof -
  have "\<exists>c. for_each xs confidence_body 0 = Inr c"
  proof (rule for_each_total)
    fix p c assume "p \<in> set xs"
    then show "\<exists>c'. confidence_body p c = Inr c'"
      using assms by (simp add: confidence_body_def getitem_def)
  qed
  then show ?thesis by (auto simp add: confidence_def)
qed

lemma per_bin_loop_total:
  assumes "\<forall>z \<in> set zs. scored_doc (fst z)"
  shows "\<exists>em conf. for_each [1..<10] (per_bin_body (fst (binned zs)) (fst (snd (binned zs))))
                       st = Inr (em, conf)"
proof -
  have "\<exists>st'. for_each [1..<10] (per_bin_body (fst (binned zs)) (fst (snd (binned zs)))) st
                 = Inr st'"
  proof (rule for_each_total)
    fix i and st :: "real list \<times> real list"
    assume "i \<in> set [1..<10]"
    then have i: "i < 10" by simp
    let ?sel = "filter (\<lambda>z. confidence_bin (best_score (fst z)) = i) zs"
    have pb: "fst (binned zs) ! i = map fst ?sel" and lb: "fst (snd (binned zs)) ! i = map snd ?sel"
      using i by (simp_all add: binned_def)
    have ok: "\<forall>p \<in> set (map fst ?sel). p \<noteq> [] \<and> p ! 0 \<noteq> []"
      using assms by (auto simp add: scored_doc_def)
    from squad_EM_start_total [OF ok, of "map snd ?sel"]
    obtain e where e: "squad_EM_start (map fst ?sel) (map snd ?sel) = Inr e" by auto
    from confidence_total [OF ok] obtain c where c: "confidence (map fst ?sel) = Inr c" by auto
    show "\<exists>st'. per_bin_body (fst (binned zs)) (fst (snd (binned zs))) i st = Inr st'"
      by (cases st) (simp add: per_bin_body_def pb lb e c)
  qed
  then show ?thesis by auto
qed

lemma length_filter_fst:
  "length (filter (\<lambda>z. P (fst z)) zs) = length (filter P (map fst zs))"
  by (induction zs) simp_all

lemma sum_list_bin_counts:
  assumes "\<forall>x \<in> set xs. f x < n"
  shows "sum_list (map (\<lambda>b. length (filter (\<lambda>x. f x = b) xs)) [0..<n]) = length xs"
  using assms
proof (induction xs)
  case Nil
  then show ?case by simp
next
  case (Cons x xs)
  have one: "sum_list (map (\<lambda>b. if f x = b then 1 else 0) [0..<n]) = (1::nat)"
    using Cons.prems by (simp add: interv_sum_list_conv_sum_set_nat)
  have "sum_list (map (\<lambda>b. length (filter (\<lambda>x. f x = b) (x # xs))) [0..<n])
          = sum_list (map (\<lambda>b. (if f x = b then 1 else 0)
                                + length (filter (\<lambda>x. f x = b) xs)) [0..<n])"
    by (intro arg_cong [where f = sum_list] map_cong) auto
  also have "\<dots> = 1 + length xs"
    using one Cons by (simp add: sum_list_addf)
  finally show ?case by simp
qed

lemma length_filter_mono:
  "(\<And>x. x \<in> set xs \<Longrightarrow> P x \<Longrightarrow> Q x) \<Longrightarrow> length (filter P xs) \<le> length (filter Q xs)"
  by (induction xs) auto


text \<open>The sample scores are doubles, and their bins.\<close>

lemma round_half_even_of_int [simp]: "round_half_even (real_of_int n) = n"
  by (simp add: round_half_even_def)

lemma max_double_ge: "(10::real) \<le> max_double"
  by (simp add: max_double_def)

lemma sample_scores_double:
  "is_double 1" "is_double (8106479329266892 / 2 ^ 53)" "is_double (5404319552844595 / 2 ^ 54)"
proof -
  have "round_double 1 = 1"
    using round_double_binade [of 0 1] round_half_even_of_int [of "2 ^ 52"] by simp
  then show "is_double 1" using max_double_ge by (simp add: is_double_def)
  have "round_double (8106479329266892 / 2 ^ 53) = 8106479329266892 / 2 ^ 53"
    using round_double_binade [of "- 1" "8106479329266892 / 2 ^ 53"]
      round_half_even_of_int [of 8106479329266892] by simp
  then show "is_double (8106479329266892 / 2 ^ 53)"
    using max_double_ge by (simp add: is_double_def)
  have "round_double (5404319552844595 / 2 ^ 54) = 5404319552844595 / 2 ^ 54"
    using round_double_binade [of "- 2" "5404319552844595 / 2 ^ 54"]
      round_half_even_of_int [of 5404319552844595] by simp
  then show "is_double (5404319552844595 / 2 ^ 54)"
    using max_double_ge by (simp add: is_double_def)
qed

lemma sample_bins:
  "confidence_bin 1 = 9" "confidence_bin (8106479329266892 / 2 ^ 53) = 9"
  "confidence_bin (5404319552844595 / 2 ^ 54) = 3"
proof -
  show "confidence_bin 1 = 9"
    using sample_scores_double(1) by (intro confidence_bin_top) simp_all
  have "round_double (8106479329266892 / 2 ^ 53 * 10) = 9"
    using round_double_8_16 [of "8106479329266892 / 2 ^ 53 * 10"]
    by (simp add: round_half_even_def Let_def)
  then show "confidence_bin (8106479329266892 / 2 ^ 53) = 9"
    by (simp add: confidence_bin_def float_mul_def)
  have "round_double (5404319552844595 / 2 ^ 54 * 10) = 3"
    using round_double_binade [of 1 "5404319552844595 / 2 ^ 54 * 10"]
    by (simp add: round_half_even_def Let_def)
  then show "confidence_bin (5404319552844595 / 2 ^ 54) = 3"
    by (simp add: confidence_bin_def float_mul_def)
qed


subsection \<open>Average gold rank\<close>

lemma np_nonzero_eq_Cons:
  "np_nonzero_eq (a # y) v = (if a = v then [0] else []) @ map Suc (np_nonzero_eq y v)"
proof -
  have "[0..<length (a # y)] = 0 # map Suc [0..<length y]"
    by (simp add: upt_conv_Cons map_Suc_upt del: upt_Suc)
  then show ?thesis
    by (simp add: np_nonzero_eq_def filter_map comp_def del: upt_Suc)
qed

lemma np_nonzero_eq_absent: "v \<notin> set y \<Longrightarrow> np_nonzero_eq y v = []"
  by (induction y) (simp_all add: np_nonzero_eq_Cons, simp add: np_nonzero_eq_def)

lemma np_nonzero_eq_once:
  "count_list y v = 1 \<Longrightarrow> np_nonzero_eq y v = [position v y]"
proof (induction y)
  case Nil
  then show ?case by simp
next
  case (Cons a y)
  show ?case
  proof (cases "a = v")
    case True
    with Cons.prems have "count_list y v = 0" by simp
    then have "v \<notin> set y" by (simp add: count_list_0_iff)
    with True show ?thesis
      by (simp add: np_nonzero_eq_Cons np_nonzero_eq_absent position_def)
  next
    case False
    with Cons show ?thesis
      by (simp add: np_nonzero_eq_Cons position_def)
  qed
qed

lemma distinct_count_list: "distinct xs \<Longrightarrow> x \<in> set xs \<Longrightarrow> count_list xs x = 1"
  by (induction xs) (auto simp add: count_list_0_iff)

lemma positive_idx_gold:
  assumes "\<forall>y \<in> set labels. count_list y 1 = 1"
  shows "concat (map (\<lambda>y. np_nonzero_eq y 1) labels) = map gold_passage labels"
  using assms by (induction labels) (simp_all add: np_nonzero_eq_once gold_passage_def)

lemma avg_ranks_body_ranked:
  assumes "i < length preds" and "distinct (preds ! i)" and "int g \<in> set (preds ! i)"
  shows "avg_ranks_body preds (i, g) rank = Inr (rank + position (int g) (preds ! i))"
  using assms
  by (simp add: avg_ranks_body_def getitem_def np_item_def Let_def
        np_nonzero_eq_once [OF distinct_count_list])

lemma ranked_batch_nth:
  assumes "ranked_batch preds labels" and "i < length preds"
  shows "ranked_query (preds ! i) (labels ! i)" and "i < length labels"
  using assms by (simp_all add: ranked_batch_def list_all2_conv_all_nth)

lemma avg_ranks_loop:
  assumes "ranked_batch preds labels" and "k \<le> length preds"
  shows "for_each (enumerate 0 (take k (map gold_passage labels))) (avg_ranks_body preds) 0
           = Inr (sum_list (map (\<lambda>i. gold_rank (preds ! i) (labels ! i)) [0..<k]))"
  using assms(2)
proof (induction k)
  case 0
  then show ?case by simp
next
  case (Suc k)
  then have k: "k < length preds" and
    IH: "for_each (enumerate 0 (take k (map gold_passage labels))) (avg_ranks_body preds) 0
           = Inr (sum_list (map (\<lambda>i. gold_rank (preds ! i) (labels ! i)) [0..<k]))"
    by simp_all
  note q = ranked_batch_nth [OF assms(1) k]
  have "take (Suc k) (map gold_passage labels)
          = take k (map gold_passage labels) @ [gold_passage (labels ! k)]"
    using q(2) by (simp add: take_Suc_conv_app_nth)
  then have "enumerate 0 (take (Suc k) (map gold_passage labels))
          = enumerate 0 (take k (map gold_passage labels)) @ [(k, gold_passage (labels ! k))]"
    using q(2) by (simp add: enumerate_append_eq min_def)
  moreover have "avg_ranks_body preds (k, gold_passage (labels ! k)) r
                   = Inr (r + gold_rank (preds ! k) (labels ! k))" for r
    using q(1) k by (simp add: avg_ranks_body_ranked ranked_query_def gold_rank_def)
  ultimately show ?case
    using for_each_snoc [OF IH] by simp
qed

text \<open>
  Claim C8. For a non-empty aligned batch in which every query has exactly one
  gold-positive passage and a ranking that contains it, \<open>text_similarity_avg_ranks\<close>
  returns the sum of the 0-based positions of the gold passages in the rankings,
  divided by the number of queries; it returns 0 when every gold passage is
  ranked first.
\<close>

theorem text_similarity_avg_ranks_mean:
  assumes "ranked_batch preds labels"
  shows "text_similarity_avg_ranks preds labels
           = Inr (real (sum_list (map (\<lambda>i. gold_rank (preds ! i) (labels ! i))
                                     [0..<length preds]))
                  / real (length preds)) \<and>
         ((\<forall>i<length preds. gold_rank (preds ! i) (labels ! i) = 0) \<longrightarrow>
            text_similarity_avg_ranks preds labels = Inr 0)"
proof -
  have len: "length labels = length preds" and ne: "length preds \<noteq> 0"
    using assms by (auto simp add: ranked_batch_def dest: list_all2_lengthD)
  have "\<forall>y \<in> set labels. count_list y 1 = 1"
    using assms
    by (auto simp add: ranked_batch_def list_all2_conv_all_nth in_set_conv_nth ranked_query_def)
  then have pos: "concat (map (\<lambda>y. np_nonzero_eq y 1) labels) = map gold_passage labels"
    by (rule positive_idx_gold)
  have "take (length preds) (map gold_passage labels) = map gold_passage labels"
    using len by simp
  with avg_ranks_loop [OF assms, of "length preds"]
  have loop: "for_each (enumerate 0 (map gold_passage labels)) (avg_ranks_body preds) 0
           = Inr (sum_list (map (\<lambda>i. gold_rank (preds ! i) (labels ! i)) [0..<length preds]))"
    by simp
  have main: "text_similarity_avg_ranks preds labels
           = Inr (real (sum_list (map (\<lambda>i. gold_rank (preds ! i) (labels ! i))
                                     [0..<length preds]))
                  / real (length preds))"
    using ne by (simp add: text_similarity_avg_ranks_def pos loop Let_def)
  have "sum_list (map (\<lambda>i. gold_rank (preds ! i) (labels ! i)) [0..<length preds]) = 0"
    if "\<forall>i<length preds. gold_rank (preds ! i) (labels ! i) = 0"
    using that by simp
  with main show ?thesis by simp
qed

theorem text_similarity_avg_ranks_mean_witness:
  "ranked_batch [[2, 0, 1], [1, 0]] [[0, 0, 1], [1, 0]] \<and>
   text_similarity_avg_ranks [[2, 0, 1], [1, 0]] [[0, 0, 1], [1, 0]] = Inr (1 / 2) \<and>
   ranked_batch [[2, 0, 1], [0, 1]] [[0, 0, 1], [1, 0]] \<and>
   gold_rank [2, 0, 1] [0, 0, 1] = 0 \<and> gold_rank [0, 1] [1, 0] = 0 \<and>
   text_similarity_avg_ranks [[2, 0, 1], [0, 1]] [[0, 0, 1], [1, 0]] = Inr 0"
proof -
  have b1: "ranked_batch [[2, 0, 1], [1, 0]] [[0, 0, 1], [1, 0]]"
    and b2: "ranked_batch [[2, 0, 1], [0, 1]] [[0, 0, 1], [1, 0]]"
    by (simp_all add: ranked_batch_def ranked_query_def gold_passage_def position_def)
  have first: "\<forall>i<length [[2, 0, 1], [0, 1 :: int]].
      gold_rank ([[2, 0, 1], [0, 1]] ! i) ([[0, 0, 1], [1, 0]] ! i) = 0"
    by (simp add: gold_rank_def gold_passage_def position_def less_Suc_eq numeral_2_eq_2)
  from text_similarity_avg_ranks_mean [OF b1] text_similarity_avg_ranks_mean [OF b2] b1 b2 first
  show ?thesis
    by (simp add: gold_rank_def gold_passage_def position_def upt_rec)
qed

end
